theory Spec2Isabelle
  imports Main
begin

section \<open>Data model\<close>

text \<open>
  An environment pair of a container (\<^verbatim>\<open>corev1.EnvVar\<close>): the client reads and
  writes the fields \<^verbatim>\<open>Name\<close> and \<^verbatim>\<open>Value\<close> only.
\<close>

record EnvVar =
  Name :: string
  Value :: string

text \<open>
  The service resource (\<^verbatim>\<open>serving.Service\<close>) is declared by the platform library.
  The client touches one nested field, the environment list at
  \<^verbatim>\<open>s.Spec.RunLatest.Configuration.RevisionTemplate.Spec.Container.Env\<close>. In that
  path \<^verbatim>\<open>RunLatest\<close> is a pointer: it is nil for a service that is not in the
  run-latest mode, and a copy of the \<^verbatim>\<open>Service\<close> struct shares the object it points
  to with the original.

  So a \<open>Service\<close> value holds the field \<open>RunLatest\<close>, nil (\<open>None\<close>) or the
  address of an object in memory, and an opaque field \<open>other\<close> for all that the struct
  holds outside that pointer. The object pointed to holds the environment list \<open>Env\<close>
  and an opaque field \<open>rest\<close> for everything else below the pointer.
\<close>

type_synonym addr = nat

record 'r RunLatestType =
  Env :: "EnvVar list"
  rest :: 'r

record 'o Service =
  RunLatest :: "addr option"
  other :: 'o

text \<open>
  The memory of the process maps every address to the object stored there. The state
  that the calls thread through is this memory together with the state \<open>'w\<close> of the
  world outside the process.
\<close>

type_synonym 'r heap = "addr \<Rightarrow> 'r RunLatestType"

type_synonym ('r, 'w) state = "'r heap \<times> 'w"

text \<open>
  Go's \<^verbatim>\<open>error\<close> values: \<^verbatim>\<open>errors.New("invalid app name")\<close>,
  \<^verbatim>\<open>fmt.Errorf("unknown app: '%s'", appName)\<close>, and whatever else a collaborator
  returns.
\<close>

datatype 'e error = InvalidAppName | UnknownApp string | Upstream 'e

text \<open>
  A call of the client either returns (an error or a value) or panics on the
  dereference of a nil \<^verbatim>\<open>RunLatest\<close>.
\<close>

datatype ('e, 'a) outcome = Returns "'e error + 'a" | Panics

text \<open>The filters handed to the App Lister.\<close>

datatype ListOption = WithListNamespace string | WithListAppName string

text \<open>
  The resolved options of one call (\<^verbatim>\<open>cfg\<close>); the client reads \<^verbatim>\<open>cfg.Namespace\<close>.
  The option helpers (\<^verbatim>\<open>ListEnvOptionDefaults().Extend(opts).toConfig()\<close> and its two
  siblings) are not part of the source: each operation takes the resolution
  \<open>toConfig\<close> as a parameter.
\<close>

record Config =
  Namespace :: string

text \<open>
  Upstream calls act on the state and return an error or a value together with the new
  state. \<^verbatim>\<open>client.Services(namespace).Update(&s)\<close> is a function of the namespace and
  the resource; it reads the object behind \<^verbatim>\<open>RunLatest\<close> in the memory it is given.
\<close>

type_synonym ('o, 'r, 'e, 'w) ServicesUpdate =
  "string \<Rightarrow> 'o Service \<Rightarrow> ('r, 'w) state \<Rightarrow> ('e error + 'o Service) \<times> ('r, 'w) state"

text \<open>
  The client holds its two collaborators: the App Lister \<open>l\<close> (its method
  \<^verbatim>\<open>List\<close>) and the Serving Factory \<open>f\<close>.
\<close>

record ('o, 'r, 'e, 'w) EnvironmentClient =
  l :: "ListOption list \<Rightarrow> ('r, 'w) state \<Rightarrow> ('e error + 'o Service list) \<times> ('r, 'w) state"
  f :: "('r, 'w) state \<Rightarrow> ('e error + ('o, 'r, 'e, 'w) ServicesUpdate) \<times> ('r, 'w) state"

section \<open>The operations\<close>

definition fetchService ::
  "('o, 'r, 'e, 'w) EnvironmentClient \<Rightarrow> string \<Rightarrow> string \<Rightarrow> ('r, 'w) state
     \<Rightarrow> ('e error + 'o Service) \<times> ('r, 'w) state"
where
  "fetchService c namespace appName \<sigma> =
     (case l c [WithListNamespace namespace, WithListAppName appName] \<sigma> of
        (Inl err, \<sigma>') \<Rightarrow> (Inl err, \<sigma>')
      | (Inr services, \<sigma>') \<Rightarrow>
          if length services \<noteq> 1 then (Inl (UnknownApp appName), \<sigma>')
          else (Inr (services ! 0), \<sigma>'))"

text \<open>
  A Go \<^verbatim>\<open>map[string]string\<close> is a finite map. A \<^verbatim>\<open>range\<close> loop over it visits
  every key once, in an order the runtime picks for that loop. The order is an argument
  of the model: \<open>rangeKeys m ks\<close> says that \<open>ks\<close> is such an order for \<open>m\<close>.
\<close>

definition rangeKeys :: "(string \<rightharpoonup> string) \<Rightarrow> string list \<Rightarrow> bool" where
  "rangeKeys m ks \<longleftrightarrow> distinct ks \<and> set ks = dom m"

text \<open>
  The set \<^verbatim>\<open>map[string]bool\<close> of \<open>removeEnvs\<close>: reading a missing key gives
  \<^verbatim>\<open>false\<close>.
\<close>

definition lookupBool :: "(string \<rightharpoonup> bool) \<Rightarrow> string \<Rightarrow> bool" where
  "lookupBool m k = (case m k of None \<Rightarrow> False | Some b \<Rightarrow> b)"

definition removeEnvs :: "string list \<Rightarrow> EnvVar list \<Rightarrow> EnvVar list" where
  "removeEnvs names envs =
     (let m = fold (\<lambda>name m. m(name \<mapsto> True)) names Map.empty
      in fold (\<lambda>env newValues.
                 if lookupBool m (Name env) then newValues else newValues @ [env])
              envs [])"

text \<open>\<open>order\<close> is the order in which \<^verbatim>\<open>range values\<close> visits the keys.\<close>

definition dedupeEnvs ::
  "string list \<Rightarrow> (string \<rightharpoonup> string) \<Rightarrow> EnvVar list \<Rightarrow> (string \<rightharpoonup> string)"
where
  "dedupeEnvs order values envs =
     (let newValues = fold (\<lambda>e newValues. newValues(Name e \<mapsto> Value e)) envs Map.empty
      in fold (\<lambda>n newValues.
                 case values n of None \<Rightarrow> newValues | Some v \<Rightarrow> newValues(n \<mapsto> v))
              order newValues)"

definition mapToEnvs :: "string list \<Rightarrow> (string \<rightharpoonup> string) \<Rightarrow> EnvVar list" where
  "mapToEnvs order values =
     fold (\<lambda>n envs.
             case values n of None \<Rightarrow> envs | Some v \<Rightarrow> envs @ [\<lparr>Name = n, Value = v\<rparr>])
          order []"

text \<open>
  The assignment \<^verbatim>\<open>s.Spec.RunLatest.Configuration.RevisionTemplate.Spec.Container.Env = envs\<close>
  with \<^verbatim>\<open>RunLatest\<close> pointing to address \<open>a\<close>: it overwrites the list inside the
  object in memory, for everyone who holds a pointer to that object.
\<close>

definition writeEnv :: "addr \<Rightarrow> EnvVar list \<Rightarrow> 'r heap \<Rightarrow> 'r heap" where
  "writeEnv a envs h = h(a := (h a)\<lparr>Env := envs\<rparr>)"

text \<open>
  \<open>List\<close> reads the environment list through \<^verbatim>\<open>RunLatest\<close> without a check for
  nil.
\<close>

definition List ::
  "('o, 'r, 'e, 'w) EnvironmentClient \<Rightarrow> ('p \<Rightarrow> Config) \<Rightarrow> string \<Rightarrow> 'p \<Rightarrow> ('r, 'w) state
     \<Rightarrow> ('e, string \<rightharpoonup> string) outcome \<times> ('r, 'w) state"
where
  "List c toConfig appName opts \<sigma> =
     (if appName = [] then (Returns (Inl InvalidAppName), \<sigma>)
      else
        let cfg = toConfig opts in
        case fetchService c (Namespace cfg) appName \<sigma> of
          (Inl err, \<sigma>') \<Rightarrow> (Returns (Inl err), \<sigma>')
        | (Inr s, (h, w)) \<Rightarrow>
            (case RunLatest s of
               None \<Rightarrow> (Panics, (h, w))
             | Some a \<Rightarrow>
                 (Returns (Inr (fold (\<lambda>env results. results(Name env \<mapsto> Value env))
                                     (Env (h a)) Map.empty)),
                  (h, w))))"

text \<open>
  \<open>Set\<close> runs two \<^verbatim>\<open>range\<close> loops over maps: over \<open>values\<close> in
  \<open>dedupeEnvs\<close> (order \<open>order1\<close>) and over the merged map in \<open>mapToEnvs\<close>
  (order \<open>order2\<close>). It reads the existing list through \<^verbatim>\<open>RunLatest\<close> (a panic when
  nil), writes the new list in place and then calls the update with the resource. A Go
  function that returns only \<^verbatim>\<open>error\<close> returns \<open>Inr ()\<close> for \<^verbatim>\<open>nil\<close>.
\<close>

definition Set ::
  "('o, 'r, 'e, 'w) EnvironmentClient \<Rightarrow> ('p \<Rightarrow> Config) \<Rightarrow> string list \<Rightarrow> string list
     \<Rightarrow> string \<Rightarrow> (string \<rightharpoonup> string) \<Rightarrow> 'p \<Rightarrow> ('r, 'w) state
     \<Rightarrow> ('e, unit) outcome \<times> ('r, 'w) state"
where
  "Set c toConfig order1 order2 appName values opts \<sigma> =
     (if appName = [] then (Returns (Inl InvalidAppName), \<sigma>)
      else
        let cfg = toConfig opts in
        case f c \<sigma> of
          (Inl err, \<sigma>1) \<Rightarrow> (Returns (Inl err), \<sigma>1)
        | (Inr client, \<sigma>1) \<Rightarrow>
            (case fetchService c (Namespace cfg) appName \<sigma>1 of
               (Inl err, \<sigma>2) \<Rightarrow> (Returns (Inl err), \<sigma>2)
             | (Inr s, (h, w)) \<Rightarrow>
                 (case RunLatest s of
                    None \<Rightarrow> (Panics, (h, w))
                  | Some a \<Rightarrow>
                      let newValues = dedupeEnvs order1 values (Env (h a));
                          h' = writeEnv a (mapToEnvs order2 newValues) h
                      in case client (Namespace cfg) s (h', w) of
                           (Inl err, \<sigma>3) \<Rightarrow> (Returns (Inl err), \<sigma>3)
                         | (Inr _, \<sigma>3) \<Rightarrow> (Returns (Inr ()), \<sigma>3))))"

definition Unset ::
  "('o, 'r, 'e, 'w) EnvironmentClient \<Rightarrow> ('p \<Rightarrow> Config) \<Rightarrow> string \<Rightarrow> string list \<Rightarrow> 'p
     \<Rightarrow> ('r, 'w) state \<Rightarrow> ('e, unit) outcome \<times> ('r, 'w) state"
where
  "Unset c toConfig appName names opts \<sigma> =
     (if appName = [] then (Returns (Inl InvalidAppName), \<sigma>)
      else
        let cfg = toConfig opts in
        case f c \<sigma> of
          (Inl err, \<sigma>1) \<Rightarrow> (Returns (Inl err), \<sigma>1)
        | (Inr client, \<sigma>1) \<Rightarrow>
            (case fetchService c (Namespace cfg) appName \<sigma>1 of
               (Inl err, \<sigma>2) \<Rightarrow> (Returns (Inl err), \<sigma>2)
             | (Inr s, (h, w)) \<Rightarrow>
                 (case RunLatest s of
                    None \<Rightarrow> (Panics, (h, w))
                  | Some a \<Rightarrow>
                      let newValues = removeEnvs names (Env (h a));
                          h' = writeEnv a newValues h
                      in case client (Namespace cfg) s (h', w) of
                           (Inl err, \<sigma>3) \<Rightarrow> (Returns (Inl err), \<sigma>3)
                         | (Inr _, \<sigma>3) \<Rightarrow> (Returns (Inr ()), \<sigma>3))))"

section \<open>Reading the environment list as a mapping\<close>

text \<open>
  The specification's view of an environment list as a mapping in which the last pair of
  a name counts: \<open>map_of\<close> takes the first pair of a key, so the list is reversed.
\<close>

definition envPairs :: "EnvVar list \<Rightarrow> (string \<times> string) list" where
  "envPairs envs = map (\<lambda>e. (Name e, Value e)) envs"

definition lastWins :: "EnvVar list \<Rightarrow> (string \<rightharpoonup> string)" where
  "lastWins envs = map_of (rev (envPairs envs))"

section \<open>Observing the upstream calls\<close>

text \<open>
  The calls a client makes to its collaborators. An update is logged with the resource
  it was given and the object behind the resource's \<^verbatim>\<open>RunLatest\<close> as it was in memory
  at the call. \<open>recording c\<close> behaves as \<open>c\<close> and appends every call it receives to
  a log kept beside the world, as a test double that counts its invocations does.
\<close>

datatype ('o, 'r) call =
  FactoryCall
| ListCall "ListOption list"
| UpdateCall string "'o Service" "'r RunLatestType option"

definition recordUpdate ::
  "('o, 'r, 'e, 'w) ServicesUpdate \<Rightarrow> ('o, 'r, 'e, ('o, 'r) call list \<times> 'w) ServicesUpdate"
where
  "recordUpdate u namespace s =
     (\<lambda>(h, (log, w)).
        case u namespace s (h, w) of
          (r, (h', w')) \<Rightarrow>
            (r, (h', (log @ [UpdateCall namespace s (map_option h (RunLatest s))], w'))))"

definition recording ::
  "('o, 'r, 'e, 'w) EnvironmentClient
     \<Rightarrow> ('o, 'r, 'e, ('o, 'r) call list \<times> 'w) EnvironmentClient"
where
  "recording c =
     \<lparr> l = (\<lambda>opts (h, (log, w)).
                case l c opts (h, w) of
                  (r, (h', w')) \<Rightarrow> (r, (h', (log @ [ListCall opts], w')))),
       f = (\<lambda>(h, (log, w)).
                case f c (h, w) of
                  (Inl err, (h', w')) \<Rightarrow> (Inl err, (h', (log @ [FactoryCall], w')))
                | (Inr u, (h', w')) \<Rightarrow>
                    (Inr (recordUpdate u), (h', (log @ [FactoryCall], w')))) \<rparr>"

section \<open>Platforms for concrete runs\<close>

text \<open>
  An in-process platform: the world is the list of the \<^verbatim>\<open>Service\<close> structs it keeps,
  whose opaque part is the namespace and the name. The lister returns the kept structs
  that pass every filter, so what it returns shares its \<^verbatim>\<open>RunLatest\<close> objects with
  what is kept. An update replaces the kept struct of the same namespace and name and is
  rejected when there is none.
\<close>

definition fakeMatches :: "ListOption \<Rightarrow> (string \<times> string) Service \<Rightarrow> bool" where
  "fakeMatches opt s =
     (case opt of
        WithListNamespace namespace \<Rightarrow> fst (other s) = namespace
      | WithListAppName appName \<Rightarrow> snd (other s) = appName)"

definition fakeList ::
  "ListOption list \<Rightarrow> (unit, (string \<times> string) Service list) state
     \<Rightarrow> (string error + (string \<times> string) Service list)
         \<times> (unit, (string \<times> string) Service list) state"
where
  "fakeList opts =
     (\<lambda>(h, w). (Inr (filter (\<lambda>s. list_all (\<lambda>opt. fakeMatches opt s) opts) w), (h, w)))"

definition fakeUpdate ::
  "(string \<times> string, unit, string, (string \<times> string) Service list) ServicesUpdate"
where
  "fakeUpdate namespace s =
     (\<lambda>(h, w).
        if fst (other s) = namespace \<and> list_ex (\<lambda>t. other t = other s) w
        then (Inr s, (h, map (\<lambda>t. if other t = other s then s else t) w))
        else (Inl (Upstream ''not found''), (h, w)))"

definition fakeClient ::
  "(string \<times> string, unit, string, (string \<times> string) Service list) EnvironmentClient"
where
  "fakeClient = \<lparr> l = fakeList, f = (\<lambda>\<sigma>. (Inr fakeUpdate, \<sigma>)) \<rparr>"

text \<open>The same platform with a Serving Factory that fails.\<close>

definition noHandleClient ::
  "(string \<times> string, unit, string, (string \<times> string) Service list) EnvironmentClient"
where
  "noHandleClient = \<lparr> l = fakeList, f = (\<lambda>\<sigma>. (Inl (Upstream ''no handle''), \<sigma>)) \<rparr>"

text \<open>The same platform with a handle that rejects every update.\<close>

definition readOnlyClient ::
  "(string \<times> string, unit, string, (string \<times> string) Service list) EnvironmentClient"
where
  "readOnlyClient =
     \<lparr> l = fakeList,
       f = (\<lambda>\<sigma>. (Inr (\<lambda>namespace s \<sigma>'. (Inl (Upstream ''forbidden''), \<sigma>')), \<sigma>)) \<rparr>"

text \<open>
  What the in-process platform stores, read as the lister's callers read it: for every
  kept struct its opaque part and the environment list behind its \<^verbatim>\<open>RunLatest\<close>.
\<close>

definition fakeStored ::
  "(unit, (string \<times> string) Service list) state
     \<Rightarrow> ((string \<times> string) \<times> EnvVar list option) list"
where
  "fakeStored = (\<lambda>(h, w). map (\<lambda>s. (other s, map_option (\<lambda>a. Env (h a)) (RunLatest s))) w)"

text \<open>
  A remote platform: the world is the list of stored documents (namespace and name, and
  the environment list) and the next free address. The lister decodes every matching
  document into a fresh object in memory, so what it returns shares nothing with what is
  stored. Its handle rejects every update.
\<close>

fun decode ::
  "addr \<Rightarrow> ((string \<times> string) \<times> EnvVar list) list \<Rightarrow> unit heap
     \<Rightarrow> (string \<times> string) Service list \<times> unit heap"
where
  "decode a [] h = ([], h)"
| "decode a (d # ds) h =
     (case decode (Suc a) ds (h(a := \<lparr>Env = snd d, rest = ()\<rparr>)) of
        (ss, h') \<Rightarrow> (\<lparr>RunLatest = Some a, other = fst d\<rparr> # ss, h'))"

definition remoteMatches :: "ListOption \<Rightarrow> (string \<times> string) \<times> EnvVar list \<Rightarrow> bool" where
  "remoteMatches opt d =
     (case opt of
        WithListNamespace namespace \<Rightarrow> fst (fst d) = namespace
      | WithListAppName appName \<Rightarrow> snd (fst d) = appName)"

definition remoteList ::
  "ListOption list \<Rightarrow> (unit, ((string \<times> string) \<times> EnvVar list) list \<times> addr) state
     \<Rightarrow> (string error + (string \<times> string) Service list)
         \<times> (unit, ((string \<times> string) \<times> EnvVar list) list \<times> addr) state"
where
  "remoteList opts =
     (\<lambda>(h, (docs, free)).
        let ds = filter (\<lambda>d. list_all (\<lambda>opt. remoteMatches opt d) opts) docs in
        case decode free ds h of
          (ss, h') \<Rightarrow> (Inr ss, (h', (docs, free + length ds))))"

definition remoteReadOnlyClient ::
  "(string \<times> string, unit, string, ((string \<times> string) \<times> EnvVar list) list \<times> addr)
     EnvironmentClient"
where
  "remoteReadOnlyClient =
     \<lparr> l = remoteList,
       f = (\<lambda>\<sigma>. (Inr (\<lambda>namespace s \<sigma>'. (Inl (Upstream ''forbidden''), \<sigma>')), \<sigma>)) \<rparr>"

definition remoteStored ::
  "(unit, ((string \<times> string) \<times> EnvVar list) list \<times> addr) state
     \<Rightarrow> ((string \<times> string) \<times> EnvVar list) list"
where
  "remoteStored = (\<lambda>(h, (docs, free)). docs)"

text \<open>Concrete inputs.\<close>

definition defaultConfig :: "unit \<Rightarrow> Config" where
  "defaultConfig opts = \<lparr>Namespace = ''default''\<rparr>"

definition pair :: "string \<Rightarrow> string \<Rightarrow> EnvVar" where
  "pair n v = \<lparr>Name = n, Value = v\<rparr>"

definition app :: "(string \<times> string) Service" where
  "app = \<lparr>RunLatest = Some 0, other = (''default'', ''app'')\<rparr>"

definition nilApp :: "(string \<times> string) Service" where
  "nilApp = \<lparr>RunLatest = None, other = (''default'', ''app'')\<rparr>"

definition mem :: "EnvVar list \<Rightarrow> unit heap" where
  "mem envs = (\<lambda>a. \<lparr>Env = [], rest = ()\<rparr>)(0 := \<lparr>Env = envs, rest = ()\<rparr>)"

section \<open>The loops in closed form\<close>

lemma lastWins_Cons: "lastWins (e # envs) = [Name e \<mapsto> Value e] ++ lastWins envs"
  by (simp add: lastWins_def envPairs_def)

lemma fold_insert_envs:
  "fold (\<lambda>env results. results(Name env \<mapsto> Value env)) envs m = m ++ lastWins envs"
proof (induction envs arbitrary: m)
  case Nil
  show ?case by (simp add: lastWins_def envPairs_def)
next
  case (Cons e envs)
  have "fold (\<lambda>env results. results(Name env \<mapsto> Value env)) (e # envs) m
        = fold (\<lambda>env results. results(Name env \<mapsto> Value env)) envs (m(Name e \<mapsto> Value e))"
    by (simp only: fold_simps)
  also have "\<dots> = m(Name e \<mapsto> Value e) ++ lastWins envs"
    by (rule Cons.IH)
  also have "\<dots> = m ++ lastWins (e # envs)"
    by (simp only: lastWins_Cons map_add_assoc map_add_upd map_add_empty)
  finally show ?case .
qed

lemma removeEnvs_set: "fold (\<lambda>name m. m(name \<mapsto> True)) names m0 k = (if k \<in> set names then Some True else m0 k)"
  by (induction names arbitrary: m0) auto

lemma removeEnvs_loop: "fold (\<lambda>env newValues. if P (Name env) then newValues else newValues @ [env]) envs acc
   = acc @ filter (\<lambda>env. \<not> P (Name env)) envs"
  by (induction envs arbitrary: acc) auto

lemma removeEnvs_filter: "removeEnvs names envs = filter (\<lambda>env. Name env \<notin> set names) envs"
proof -
  have "lookupBool (fold (\<lambda>name m. m(name \<mapsto> True)) names Map.empty) = (\<lambda>k. k \<in> set names)"
    by (rule ext) (simp add: lookupBool_def removeEnvs_set)
  then show ?thesis
    by (simp add: removeEnvs_def removeEnvs_loop)
qed

lemma dedupe_loop:
  "fold (\<lambda>n newValues. case values n of None \<Rightarrow> newValues | Some v \<Rightarrow> newValues(n \<mapsto> v)) order m k
     = (if k \<in> set order then (case values k of None \<Rightarrow> m k | Some v \<Rightarrow> Some v) else m k)"
  by (induction order arbitrary: m) (auto split: option.splits)

lemma dedupeEnvs_merge:
  assumes "rangeKeys values order"
  shows "dedupeEnvs order values envs = lastWins envs ++ values"
proof (rule ext)
  fix k
  have "k \<in> set order \<longleftrightarrow> k \<in> dom values"
    using assms by (simp add: rangeKeys_def)
  then show "dedupeEnvs order values envs k = (lastWins envs ++ values) k"
    by (auto simp: dedupeEnvs_def fold_insert_envs dedupe_loop map_add_def split: option.splits)
qed

lemma mapToEnvs_loop:
  "set order \<subseteq> dom values \<Longrightarrow>
   fold (\<lambda>n envs. case values n of None \<Rightarrow> envs | Some v \<Rightarrow> envs @ [\<lparr>Name = n, Value = v\<rparr>]) order acc
     = acc @ map (\<lambda>n. \<lparr>Name = n, Value = the (values n)\<rparr>) order"
  by (induction order arbitrary: acc) (auto split: option.splits)

lemma mapToEnvs_map:
  "set order \<subseteq> dom values \<Longrightarrow>
   mapToEnvs order values = map (\<lambda>n. \<lparr>Name = n, Value = the (values n)\<rparr>) order"
  by (simp add: mapToEnvs_def mapToEnvs_loop)

lemma mapToEnvs_names:
  "rangeKeys values order \<Longrightarrow> map Name (mapToEnvs order values) = order"
  by (simp add: rangeKeys_def mapToEnvs_map comp_def)

lemma lastWins_distinct:
  "distinct (map Name envs) \<Longrightarrow> lastWins envs = map_of (envPairs envs)"
proof (induction envs)
  case Nil
  show ?case by (simp add: lastWins_def envPairs_def)
next
  case (Cons e envs)
  have none: "map_of (envPairs envs) (Name e) = None"
    using Cons.prems by (auto simp: map_of_eq_None_iff envPairs_def image_iff)
  have "lastWins (e # envs) = [Name e \<mapsto> Value e] ++ map_of (envPairs envs)"
    using Cons by (simp add: lastWins_Cons)
  also have "\<dots> = (map_of (envPairs envs))(Name e \<mapsto> Value e)"
    using none by (auto simp: map_add_def fun_eq_iff split: option.splits)
  also have "\<dots> = map_of (envPairs (e # envs))"
    by (simp add: envPairs_def)
  finally show ?case .
qed

lemma lastWins_mapToEnvs:
  assumes "rangeKeys values order"
  shows "lastWins (mapToEnvs order values) = values"
proof -
  have sub: "set order \<subseteq> dom values" and d: "distinct order" and eq: "set order = dom values"
    using assms by (simp_all add: rangeKeys_def)
  have "lastWins (mapToEnvs order values) = map_of (envPairs (mapToEnvs order values))"
    using assms d by (simp add: lastWins_distinct mapToEnvs_names)
  also have "\<dots> = map_of (map (\<lambda>n. (n, the (values n))) order)"
    by (simp add: mapToEnvs_map [OF sub] envPairs_def comp_def)
  also have "\<dots> = values"
  proof (rule ext)
    fix k
    show "map_of (map (\<lambda>n. (n, the (values n))) order) k = values k"
      using eq by (cases "values k") (auto simp: map_of_map_restrict restrict_map_def domIff)
  qed
  finally show ?thesis .
qed




lemma removeEnvs_idem: "removeEnvs names (removeEnvs names envs) = removeEnvs names envs"
  by (simp add: removeEnvs_filter)

section \<open>Memory\<close>

lemma Env_writeEnv: "Env (writeEnv a envs h a) = envs"
  by (simp add: writeEnv_def)

lemma rest_writeEnv: "rest (writeEnv a envs h b) = rest (h b)"
  by (simp add: writeEnv_def)

lemma writeEnv_other: "b \<noteq> a \<Longrightarrow> writeEnv a envs h b = h b"
  by (simp add: writeEnv_def)

lemma writeEnv_same: "writeEnv a (Env (h a)) h = h"
  by (simp add: writeEnv_def)

lemma writeEnv_mem: "writeEnv 0 envs' (mem envs) = mem envs'"
  by (simp add: writeEnv_def mem_def)

lemma mem_0: "mem envs 0 = \<lparr>Env = envs, rest = ()\<rparr>"
  by (simp add: mem_def)

section \<open>The fetch\<close>

lemma fetchService_single:
  "l c [WithListNamespace ns, WithListAppName appName] \<sigma> = (Inr [s], \<sigma>') \<Longrightarrow>
   fetchService c ns appName \<sigma> = (Inr s, \<sigma>')"
  by (simp add: fetchService_def)

lemma fetchService_not_single:
  "l c [WithListNamespace ns, WithListAppName appName] \<sigma> = (Inr services, \<sigma>') \<Longrightarrow>
   length services \<noteq> 1 \<Longrightarrow>
   fetchService c ns appName \<sigma> = (Inl (UnknownApp appName), \<sigma>')"
  by (simp add: fetchService_def)

lemma fetchService_Inr:
  "fetchService c namespace appName \<sigma> = (Inr s, \<sigma>') \<Longrightarrow>
   l c [WithListNamespace namespace, WithListAppName appName] \<sigma> = (Inr [s], \<sigma>')"
  by (auto simp: fetchService_def length_Suc_conv split: prod.splits sum.splits if_splits)

lemma fakeList_app:
  "l fakeClient [WithListNamespace (Namespace (defaultConfig ())), WithListAppName ''app'']
     (h, [app]) = (Inr [app], (h, [app]))"
  by (simp add: fakeClient_def fakeList_def fakeMatches_def defaultConfig_def app_def)

lemma fakeUpdate_app: "fakeUpdate (Namespace (defaultConfig ())) app (h, [app]) = (Inr app, (h, [app]))"
  by (simp add: fakeUpdate_def defaultConfig_def app_def)

section \<open>The operations on a single match\<close>

lemma List_run:
  assumes "appName \<noteq> []"
    and "l c [WithListNamespace (Namespace (toConfig opts)), WithListAppName appName] \<sigma>
           = (Inr [s], (h, w))"
  shows "List c toConfig appName opts \<sigma>
           = (case RunLatest s of
                None \<Rightarrow> (Panics, (h, w))
              | Some a \<Rightarrow> (Returns (Inr (lastWins (Env (h a)))), (h, w)))"
  using assms by (simp add: List_def fetchService_single fold_insert_envs split: option.splits)

lemma Set_run:
  assumes "appName \<noteq> []"
    and "f c \<sigma> = (Inr client, \<sigma>1)"
    and "l c [WithListNamespace (Namespace (toConfig opts)), WithListAppName appName] \<sigma>1
           = (Inr [s], (h, w))"
  shows "Set c toConfig order1 order2 appName values opts \<sigma>
           = (case RunLatest s of
                None \<Rightarrow> (Panics, (h, w))
              | Some a \<Rightarrow>
                  (case client (Namespace (toConfig opts)) s
                          (writeEnv a (mapToEnvs order2 (dedupeEnvs order1 values (Env (h a)))) h,
                           w) of
                     (Inl err, \<sigma>3) \<Rightarrow> (Returns (Inl err), \<sigma>3)
                   | (Inr r, \<sigma>3) \<Rightarrow> (Returns (Inr ()), \<sigma>3)))"
  using assms by (simp add: Set_def fetchService_single Let_def split: option.splits)

lemma Unset_run:
  assumes "appName \<noteq> []"
    and "f c \<sigma> = (Inr client, \<sigma>1)"
    and "l c [WithListNamespace (Namespace (toConfig opts)), WithListAppName appName] \<sigma>1
           = (Inr [s], (h, w))"
  shows "Unset c toConfig appName names opts \<sigma>
           = (case RunLatest s of
                None \<Rightarrow> (Panics, (h, w))
              | Some a \<Rightarrow>
                  (case client (Namespace (toConfig opts)) s
                          (writeEnv a (removeEnvs names (Env (h a))) h, w) of
                     (Inl err, \<sigma>3) \<Rightarrow> (Returns (Inl err), \<sigma>3)
                   | (Inr r, \<sigma>3) \<Rightarrow> (Returns (Inr ()), \<sigma>3)))"
  using assms by (simp add: Unset_def fetchService_single Let_def split: option.splits)

section \<open>List\<close>




section \<open>Set\<close>

text \<open>
  Claim C2, as it is stated for every single match: when the Serving Factory gives no
  handle, \<open>Set\<close> returns the factory's error and leaves memory and the platform as
  they were, so nothing is persisted; and with one matching resource whose
  \<^verbatim>\<open>RunLatest\<close> is nil, \<open>Set\<close> panics before any update.
\<close>

theorem Set_persists_counterexample:
  "''app'' \<noteq> []
   \<and> l noHandleClient [WithListNamespace (Namespace (defaultConfig ())), WithListAppName ''app'']
        (mem [pair ''A'' ''0'', pair ''B'' ''2''], [app])
      = (Inr [app], (mem [pair ''A'' ''0'', pair ''B'' ''2''], [app]))
   \<and> Set noHandleClient defaultConfig [''A''] [''B'', ''A''] ''app'' [''A'' \<mapsto> ''1''] ()
        (mem [pair ''A'' ''0'', pair ''B'' ''2''], [app])
      = (Returns (Inl (Upstream ''no handle'')), (mem [pair ''A'' ''0'', pair ''B'' ''2''], [app]))
   \<and> l fakeClient [WithListNamespace (Namespace (defaultConfig ())), WithListAppName ''app'']
        (mem [], [nilApp])
      = (Inr [nilApp], (mem [], [nilApp]))
   \<and> Set fakeClient defaultConfig [''A''] [''A''] ''app'' [''A'' \<mapsto> ''1''] () (mem [], [nilApp])
      = (Panics, (mem [], [nilApp]))"
  by (simp add: Set_def fetchService_def fakeClient_def noHandleClient_def fakeList_def
      fakeMatches_def defaultConfig_def nilApp_def app_def)

text \<open>
  Claim C2, amended. For a non-empty application name with exactly one matching resource
  whose \<^verbatim>\<open>RunLatest\<close> is set, once the Serving Factory has given a handle, \<open>Set\<close>
  writes a new environment list into the fetched resource and hands the resource to the
  platform's update, and it succeeds exactly when that update is accepted. The names of
  the new list are distinct, and read as a mapping the list is the existing pairs
  collapsed into a mapping (last duplicate wins) overlaid with the caller's values:
  where both have a name, the caller's value is persisted. This holds for every order in
  which the two \<^verbatim>\<open>range\<close> loops visit their maps.
\<close>

theorem Set_persists_merge:
  assumes "appName \<noteq> []"
    and "f c \<sigma> = (Inr client, \<sigma>1)"
    and "l c [WithListNamespace (Namespace (toConfig opts)), WithListAppName appName] \<sigma>1
           = (Inr [s], (h, w))"
    and "RunLatest s = Some a"
    and "rangeKeys values order1"
    and "rangeKeys (dedupeEnvs order1 values (Env (h a))) order2"
  shows "Set c toConfig order1 order2 appName values opts \<sigma>
           = (case client (Namespace (toConfig opts)) s
                     (writeEnv a (mapToEnvs order2 (dedupeEnvs order1 values (Env (h a)))) h,
                      w) of
                (Inl err, \<sigma>3) \<Rightarrow> (Returns (Inl err), \<sigma>3)
              | (Inr r, \<sigma>3) \<Rightarrow> (Returns (Inr ()), \<sigma>3))
         \<and> Env (writeEnv a (mapToEnvs order2 (dedupeEnvs order1 values (Env (h a)))) h a)
             = mapToEnvs order2 (dedupeEnvs order1 values (Env (h a)))
         \<and> lastWins (mapToEnvs order2 (dedupeEnvs order1 values (Env (h a))))
             = lastWins (Env (h a)) ++ values
         \<and> distinct (map Name (mapToEnvs order2 (dedupeEnvs order1 values (Env (h a)))))
         \<and> (\<forall>n v. values n = Some v
               \<longrightarrow> lastWins (mapToEnvs order2 (dedupeEnvs order1 values (Env (h a)))) n
                   = Some v)
         \<and> (\<forall>n. values n = None
               \<longrightarrow> lastWins (mapToEnvs order2 (dedupeEnvs order1 values (Env (h a)))) n
                   = lastWins (Env (h a)) n)"
proof -
  let ?new = "mapToEnvs order2 (dedupeEnvs order1 values (Env (h a)))"
  have run: "Set c toConfig order1 order2 appName values opts \<sigma>
           = (case client (Namespace (toConfig opts)) s (writeEnv a ?new h, w) of
                (Inl err, \<sigma>3) \<Rightarrow> (Returns (Inl err), \<sigma>3)
              | (Inr r, \<sigma>3) \<Rightarrow> (Returns (Inr ()), \<sigma>3))"
    using Set_run [where toConfig = toConfig and opts = opts, OF assms(1-3)] assms(4)
    by simp
  have written: "Env (writeEnv a ?new h a) = ?new"
    by (rule Env_writeEnv)
  have "lastWins ?new = dedupeEnvs order1 values (Env (h a))"
    using assms(6) by (rule lastWins_mapToEnvs)
  then have merged: "lastWins ?new = lastWins (Env (h a)) ++ values"
    using assms(5) by (simp add: dedupeEnvs_merge)
  have names: "distinct (map Name ?new)"
    using assms(6) by (simp add: mapToEnvs_names) (simp add: rangeKeys_def)
  have caller: "\<forall>n v. values n = Some v \<longrightarrow> lastWins ?new n = Some v"
    by (simp add: merged map_add_def)
  have others: "\<forall>n. values n = None \<longrightarrow> lastWins ?new n = lastWins (Env (h a)) n"
    by (simp add: merged map_add_def)
  show ?thesis
    by (intro conjI run written merged names caller others)
qed

theorem Set_persists_merge_witness:
  "Set fakeClient defaultConfig [''A''] [''B'', ''A''] ''app'' [''A'' \<mapsto> ''1''] ()
       (mem [pair ''A'' ''0'', pair ''B'' ''2''], [app])
     = (Returns (Inr ()), (mem [pair ''B'' ''2'', pair ''A'' ''1''], [app]))
   \<and> lastWins [pair ''B'' ''2'', pair ''A'' ''1'']
     = lastWins [pair ''A'' ''0'', pair ''B'' ''2''] ++ [''A'' \<mapsto> ''1'']"
proof -
  let ?h = "mem [pair ''A'' ''0'', pair ''B'' ''2'']"
  have h1: "''app'' \<noteq> []" by simp
  have h2: "f fakeClient (?h, [app]) = (Inr fakeUpdate, (?h, [app]))"
    by (simp add: fakeClient_def)
  have h3: "l fakeClient [WithListNamespace (Namespace (defaultConfig ())),
                          WithListAppName ''app''] (?h, [app]) = (Inr [app], (?h, [app]))"
    by (rule fakeList_app)
  have h4: "RunLatest app = Some 0" by (simp add: app_def)
  have h5: "rangeKeys [''A'' \<mapsto> ''1''] [''A'']"
    by (simp add: rangeKeys_def)
  have h6: "rangeKeys (dedupeEnvs [''A''] [''A'' \<mapsto> ''1''] (Env (?h 0))) [''B'', ''A'']"
    by (auto simp: rangeKeys_def dedupeEnvs_def mem_0 pair_def split: if_splits)
  have e: "Env (?h 0) = [pair ''A'' ''0'', pair ''B'' ''2'']"
    by (simp add: mem_0)
  have m: "mapToEnvs [''B'', ''A'']
               (dedupeEnvs [''A''] [''A'' \<mapsto> ''1''] [pair ''A'' ''0'', pair ''B'' ''2''])
             = [pair ''B'' ''2'', pair ''A'' ''1'']"
    by (simp add: mapToEnvs_def dedupeEnvs_def pair_def)
  note t = Set_persists_merge [where toConfig = defaultConfig and opts = "()",
      OF h1 h2 h3 h4 h5 h6]
  have run: "Set fakeClient defaultConfig [''A''] [''B'', ''A''] ''app'' [''A'' \<mapsto> ''1''] ()
               (?h, [app])
             = (Returns (Inr ()), (mem [pair ''B'' ''2'', pair ''A'' ''1''], [app]))"
    unfolding t [THEN conjunct1] e m writeEnv_mem fakeUpdate_app by simp
  have merged: "lastWins [pair ''B'' ''2'', pair ''A'' ''1'']
                  = lastWins [pair ''A'' ''0'', pair ''B'' ''2''] ++ [''A'' \<mapsto> ''1'']"
    using t [THEN conjunct2, THEN conjunct2, THEN conjunct1] unfolding e m .
  show ?thesis
    by (intro conjI run merged)
qed

section \<open>Unset\<close>

text \<open>
  Claim C3, as it is stated for every single match: when the Serving Factory gives no
  handle, \<open>Unset\<close> returns the factory's error and leaves memory and the platform as
  they were, so nothing is persisted; and with one matching resource whose
  \<^verbatim>\<open>RunLatest\<close> is nil, \<open>Unset\<close> panics before any update.
\<close>

theorem Unset_persists_counterexample:
  "''app'' \<noteq> []
   \<and> l noHandleClient [WithListNamespace (Namespace (defaultConfig ())), WithListAppName ''app'']
        (mem [pair ''A'' ''1'', pair ''B'' ''2'', pair ''C'' ''3''], [app])
      = (Inr [app], (mem [pair ''A'' ''1'', pair ''B'' ''2'', pair ''C'' ''3''], [app]))
   \<and> Unset noHandleClient defaultConfig ''app'' [''B''] ()
        (mem [pair ''A'' ''1'', pair ''B'' ''2'', pair ''C'' ''3''], [app])
      = (Returns (Inl (Upstream ''no handle'')),
         (mem [pair ''A'' ''1'', pair ''B'' ''2'', pair ''C'' ''3''], [app]))
   \<and> l fakeClient [WithListNamespace (Namespace (defaultConfig ())), WithListAppName ''app'']
        (mem [], [nilApp])
      = (Inr [nilApp], (mem [], [nilApp]))
   \<and> Unset fakeClient defaultConfig ''app'' [''B''] () (mem [], [nilApp])
      = (Panics, (mem [], [nilApp]))"
  by (simp add: Unset_def fetchService_def fakeClient_def noHandleClient_def fakeList_def
      fakeMatches_def defaultConfig_def nilApp_def app_def)

text \<open>
  Claim C3, amended. For a non-empty application name with exactly one matching resource
  whose \<^verbatim>\<open>RunLatest\<close> is set, once the Serving Factory has given a handle, \<open>Unset\<close>
  writes into the fetched resource the existing environment list filtered, and hands the
  resource to the platform's update: exactly the pairs whose name is not among
  \<open>names\<close> are kept, in their original order. It succeeds exactly when that update is
  accepted.
\<close>

theorem Unset_persists_filter:
  assumes "appName \<noteq> []"
    and "f c \<sigma> = (Inr client, \<sigma>1)"
    and "l c [WithListNamespace (Namespace (toConfig opts)), WithListAppName appName] \<sigma>1
           = (Inr [s], (h, w))"
    and "RunLatest s = Some a"
  shows "Unset c toConfig appName names opts \<sigma>
           = (case client (Namespace (toConfig opts)) s
                     (writeEnv a (filter (\<lambda>env. Name env \<notin> set names) (Env (h a))) h, w) of
                (Inl err, \<sigma>3) \<Rightarrow> (Returns (Inl err), \<sigma>3)
              | (Inr r, \<sigma>3) \<Rightarrow> (Returns (Inr ()), \<sigma>3))
         \<and> Env (writeEnv a (filter (\<lambda>env. Name env \<notin> set names) (Env (h a))) h a)
             = filter (\<lambda>env. Name env \<notin> set names) (Env (h a))"
proof -
  have "Unset c toConfig appName names opts \<sigma>
           = (case client (Namespace (toConfig opts)) s
                     (writeEnv a (removeEnvs names (Env (h a))) h, w) of
                (Inl err, \<sigma>3) \<Rightarrow> (Returns (Inl err), \<sigma>3)
              | (Inr r, \<sigma>3) \<Rightarrow> (Returns (Inr ()), \<sigma>3))"
    using Unset_run [where toConfig = toConfig and opts = opts, OF assms(1-3)] assms(4)
    by simp
  then show ?thesis
    by (simp add: removeEnvs_filter Env_writeEnv)
qed

theorem Unset_persists_filter_witness:
  "Unset fakeClient defaultConfig ''app'' [''B''] ()
       (mem [pair ''A'' ''1'', pair ''B'' ''2'', pair ''C'' ''3''], [app])
     = (Returns (Inr ()), (mem [pair ''A'' ''1'', pair ''C'' ''3''], [app]))"
proof -
  let ?h = "mem [pair ''A'' ''1'', pair ''B'' ''2'', pair ''C'' ''3'']"
  have h1: "''app'' \<noteq> []" by simp
  have h2: "f fakeClient (?h, [app]) = (Inr fakeUpdate, (?h, [app]))"
    by (simp add: fakeClient_def)
  have h3: "l fakeClient [WithListNamespace (Namespace (defaultConfig ())),
                          WithListAppName ''app''] (?h, [app]) = (Inr [app], (?h, [app]))"
    by (rule fakeList_app)
  have h4: "RunLatest app = Some 0" by (simp add: app_def)
  have k: "filter (\<lambda>env. Name env \<notin> set [''B'']) (Env (?h 0))
             = [pair ''A'' ''1'', pair ''C'' ''3'']"
    by (simp add: mem_0 pair_def)
  note t = Unset_persists_filter [where toConfig = defaultConfig and opts = "()"
      and names = "[''B'']", OF h1 h2 h3 h4, THEN conjunct1]
  show ?thesis
    unfolding t k writeEnv_mem fakeUpdate_app by simp
qed

text \<open>
  Claim C10. When a name is among \<open>names\<close>, no pair of that name is left in the list
  that \<open>Unset\<close> persists, however many pairs of that name the existing list holds:
  the name does not occur among the names of the list that \<open>removeEnvs\<close> yields, and
  that list is what \<open>Unset\<close> writes into the fetched resource before it hands the
  resource to the update.
\<close>

theorem Unset_removes_every_occurrence:
  assumes "appName \<noteq> []"
    and "f c \<sigma> = (Inr client, \<sigma>1)"
    and "l c [WithListNamespace (Namespace (toConfig opts)), WithListAppName appName] \<sigma>1
           = (Inr [s], (h, w))"
    and "n \<in> set names"
  shows "Unset c toConfig appName names opts \<sigma>
           = (case RunLatest s of
                None \<Rightarrow> (Panics, (h, w))
              | Some a \<Rightarrow>
                  (case client (Namespace (toConfig opts)) s
                          (writeEnv a (removeEnvs names (Env (h a))) h, w) of
                     (Inl err, \<sigma>3) \<Rightarrow> (Returns (Inl err), \<sigma>3)
                   | (Inr r, \<sigma>3) \<Rightarrow> (Returns (Inr ()), \<sigma>3)))
         \<and> n \<notin> Name ` set (removeEnvs names envs)
         \<and> count_list (map Name (removeEnvs names envs)) n = 0
         \<and> Env (writeEnv a (removeEnvs names (Env (h a))) h a) = removeEnvs names (Env (h a))"
proof -
  have gone: "n \<notin> Name ` set (removeEnvs names envs)"
    using assms(4) by (auto simp: removeEnvs_filter)
  then have count: "count_list (map Name (removeEnvs names envs)) n = 0"
    by (simp add: count_list_0_iff)
  show ?thesis
    by (intro conjI gone count Env_writeEnv
          Unset_run [where toConfig = toConfig and opts = opts, OF assms(1-3)])
qed

theorem Unset_removes_every_occurrence_witness:
  "count_list (map Name [pair ''K'' ''1'', pair ''A'' ''2'', pair ''K'' ''3'', pair ''K'' ''4''])
       ''K'' = 3
   \<and> Unset fakeClient defaultConfig ''app'' [''K''] ()
       (mem [pair ''K'' ''1'', pair ''A'' ''2'', pair ''K'' ''3'', pair ''K'' ''4''], [app])
     = (Returns (Inr ()), (mem [pair ''A'' ''2''], [app]))"
proof -
  let ?h = "mem [pair ''K'' ''1'', pair ''A'' ''2'', pair ''K'' ''3'', pair ''K'' ''4'']"
  have h1: "''app'' \<noteq> []" by simp
  have h2: "f fakeClient (?h, [app]) = (Inr fakeUpdate, (?h, [app]))"
    by (simp add: fakeClient_def)
  have h3: "l fakeClient [WithListNamespace (Namespace (defaultConfig ())),
                          WithListAppName ''app''] (?h, [app]) = (Inr [app], (?h, [app]))"
    by (rule fakeList_app)
  have h4: "''K'' \<in> set [''K'']" by simp
  have r: "removeEnvs [''K''] (Env (?h 0)) = [pair ''A'' ''2'']"
    by (simp add: removeEnvs_def lookupBool_def mem_0 pair_def)
  have k: "count_list (map Name [pair ''K'' ''1'', pair ''A'' ''2'', pair ''K'' ''3'',
                                  pair ''K'' ''4'']) ''K'' = 3"
    by (simp add: pair_def)
  have a: "RunLatest app = Some 0" by (simp add: app_def)
  note t = Unset_removes_every_occurrence [where toConfig = defaultConfig and opts = "()",
      OF h1 h2 h3 h4, THEN conjunct1]
  have "Unset fakeClient defaultConfig ''app'' [''K''] () (?h, [app])
          = (Returns (Inr ()), (mem [pair ''A'' ''2''], [app]))"
    unfolding t by (simp add: a r writeEnv_mem fakeUpdate_app)
  with k show ?thesis by (intro conjI)
qed

section \<open>Errors\<close>

lemma List_not_single:
  assumes "appName \<noteq> []" and "length services \<noteq> 1"
    and "l c [WithListNamespace (Namespace (toConfig opts)), WithListAppName appName] \<sigma>
           = (Inr services, \<sigma>')"
  shows "List c toConfig appName opts \<sigma> = (Returns (Inl (UnknownApp appName)), \<sigma>')"
  using assms by (simp add: List_def fetchService_not_single)

lemma Set_not_single:
  assumes "appName \<noteq> []" and "length services \<noteq> 1"
    and "f c \<sigma> = (Inr client, \<sigma>1)"
    and "l c [WithListNamespace (Namespace (toConfig opts)), WithListAppName appName] \<sigma>1
           = (Inr services, \<sigma>')"
  shows "Set c toConfig order1 order2 appName values opts \<sigma>
           = (Returns (Inl (UnknownApp appName)), \<sigma>')"
  using assms by (simp add: Set_def fetchService_not_single)

lemma Unset_not_single:
  assumes "appName \<noteq> []" and "length services \<noteq> 1"
    and "f c \<sigma> = (Inr client, \<sigma>1)"
    and "l c [WithListNamespace (Namespace (toConfig opts)), WithListAppName appName] \<sigma>1
           = (Inr services, \<sigma>')"
  shows "Unset c toConfig appName names opts \<sigma> = (Returns (Inl (UnknownApp appName)), \<sigma>')"
  using assms by (simp add: Unset_def fetchService_not_single)

text \<open>
  Claim C4, as it is stated for every application name: with the empty name \<open>List\<close>
  fails with the invalid-name error although the App Lister would return no resource,
  and when the Serving Factory gives no handle \<open>Set\<close> fails with the factory's error
  although the App Lister would return no resource.
\<close>

theorem unknown_app_counterexample:
  "l fakeClient [WithListNamespace (Namespace (defaultConfig ())), WithListAppName []]
       (mem [], [])
     = (Inr [], (mem [], []))
   \<and> List fakeClient defaultConfig [] () (mem [], [])
     = (Returns (Inl InvalidAppName), (mem [], []))
   \<and> fst (List fakeClient defaultConfig [] () (mem [], []))
     \<noteq> Returns (Inl (UnknownApp []))
   \<and> l noHandleClient [WithListNamespace (Namespace (defaultConfig ())), WithListAppName ''app'']
       (mem [], [])
     = (Inr [], (mem [], []))
   \<and> Set noHandleClient defaultConfig [] [] ''app'' Map.empty () (mem [], [])
     = (Returns (Inl (Upstream ''no handle'')), (mem [], []))
   \<and> fst (Set noHandleClient defaultConfig [] [] ''app'' Map.empty () (mem [], []))
     \<noteq> Returns (Inl (UnknownApp ''app''))"
  by (simp add: List_def Set_def fakeClient_def noHandleClient_def fakeList_def)

text \<open>
  Claim C4, amended. When the App Lister returns a list whose length is not one (zero, or
  two or more), \<open>fetchService\<close> fails with the unknown-application error for every
  application name; \<open>List\<close> does so for every non-empty application name, and
  \<open>Set\<close> and \<open>Unset\<close> do so for every non-empty application name once the Serving
  Factory has given a handle. The error is the same whatever the length.
\<close>

theorem unknown_app_unless_single:
  assumes "length services \<noteq> 1"
  shows "(l c [WithListNamespace namespace, WithListAppName appName] \<sigma> = (Inr services, \<sigma>')
            \<longrightarrow> fetchService c namespace appName \<sigma> = (Inl (UnknownApp appName), \<sigma>'))
       \<and> (appName \<noteq> []
            \<and> l c [WithListNamespace (Namespace (toConfigL optsL)), WithListAppName appName] \<sigma>
                = (Inr services, \<sigma>')
            \<longrightarrow> List c toConfigL appName optsL \<sigma> = (Returns (Inl (UnknownApp appName)), \<sigma>'))
       \<and> (appName \<noteq> [] \<and> f c \<sigma> = (Inr client, \<sigma>1)
            \<and> l c [WithListNamespace (Namespace (toConfigS optsS)), WithListAppName appName] \<sigma>1
                = (Inr services, \<sigma>')
            \<longrightarrow> Set c toConfigS order1 order2 appName values optsS \<sigma>
                = (Returns (Inl (UnknownApp appName)), \<sigma>'))
       \<and> (appName \<noteq> [] \<and> f c \<sigma> = (Inr client, \<sigma>1)
            \<and> l c [WithListNamespace (Namespace (toConfigU optsU)), WithListAppName appName] \<sigma>1
                = (Inr services, \<sigma>')
            \<longrightarrow> Unset c toConfigU appName names optsU \<sigma>
                = (Returns (Inl (UnknownApp appName)), \<sigma>'))"
proof (intro conjI impI)
  assume "l c [WithListNamespace namespace, WithListAppName appName] \<sigma> = (Inr services, \<sigma>')"
  then show "fetchService c namespace appName \<sigma> = (Inl (UnknownApp appName), \<sigma>')"
    using assms by (rule fetchService_not_single)
next
  assume "appName \<noteq> []
            \<and> l c [WithListNamespace (Namespace (toConfigL optsL)), WithListAppName appName] \<sigma>
                = (Inr services, \<sigma>')"
  then show "List c toConfigL appName optsL \<sigma> = (Returns (Inl (UnknownApp appName)), \<sigma>')"
    using assms by (simp add: List_not_single)
next
  assume "appName \<noteq> [] \<and> f c \<sigma> = (Inr client, \<sigma>1)
            \<and> l c [WithListNamespace (Namespace (toConfigS optsS)), WithListAppName appName] \<sigma>1
                = (Inr services, \<sigma>')"
  then show "Set c toConfigS order1 order2 appName values optsS \<sigma>
                = (Returns (Inl (UnknownApp appName)), \<sigma>')"
    using assms by (simp add: Set_not_single)
next
  assume "appName \<noteq> [] \<and> f c \<sigma> = (Inr client, \<sigma>1)
            \<and> l c [WithListNamespace (Namespace (toConfigU optsU)), WithListAppName appName] \<sigma>1
                = (Inr services, \<sigma>')"
  then show "Unset c toConfigU appName names optsU \<sigma>
                = (Returns (Inl (UnknownApp appName)), \<sigma>')"
    using assms by (simp add: Unset_not_single)
qed

theorem unknown_app_unless_single_witness:
  "length [nilApp, app] \<noteq> 1
   \<and> l fakeClient [WithListNamespace (Namespace (defaultConfig ())), WithListAppName ''app'']
         (mem [pair ''A'' ''1''], [nilApp, app])
       = (Inr [nilApp, app], (mem [pair ''A'' ''1''], [nilApp, app]))
   \<and> List fakeClient defaultConfig ''app'' () (mem [pair ''A'' ''1''], [nilApp, app])
       = (Returns (Inl (UnknownApp ''app'')), (mem [pair ''A'' ''1''], [nilApp, app]))
   \<and> Set fakeClient defaultConfig [] [] ''app'' Map.empty ()
         (mem [pair ''A'' ''1''], [nilApp, app])
       = (Returns (Inl (UnknownApp ''app'')), (mem [pair ''A'' ''1''], [nilApp, app]))
   \<and> Unset fakeClient defaultConfig ''app'' [''A''] () (mem [pair ''A'' ''1''], [nilApp, app])
       = (Returns (Inl (UnknownApp ''app'')), (mem [pair ''A'' ''1''], [nilApp, app]))
   \<and> length ([] :: (string \<times> string) Service list) \<noteq> 1
   \<and> l fakeClient [WithListNamespace (Namespace (defaultConfig ())), WithListAppName ''app'']
         (mem [], [])
       = (Inr [], (mem [], []))
   \<and> List fakeClient defaultConfig ''app'' () (mem [], [])
       = (Returns (Inl (UnknownApp ''app'')), (mem [], []))"
proof -
  let ?s = "(mem [pair ''A'' ''1''], [nilApp, app])"
  let ?z = "(mem [], [] :: (string \<times> string) Service list)"
  have n: "''app'' \<noteq> []" by simp
  have two: "length [nilApp, app] \<noteq> 1" by simp
  have zero: "length ([] :: (string \<times> string) Service list) \<noteq> 1" by simp
  have fa: "f fakeClient ?s = (Inr fakeUpdate, ?s)"
    by (simp add: fakeClient_def)
  have l2: "l fakeClient [WithListNamespace (Namespace (defaultConfig ())),
                          WithListAppName ''app''] ?s = (Inr [nilApp, app], ?s)"
    by (simp add: fakeClient_def fakeList_def fakeMatches_def defaultConfig_def app_def
        nilApp_def)
  have l0: "l fakeClient [WithListNamespace (Namespace (defaultConfig ())),
                          WithListAppName ''app''] ?z = (Inr [], ?z)"
    by (simp add: fakeClient_def fakeList_def)
  note t2 = unknown_app_unless_single [where toConfigL = defaultConfig and optsL = "()"
      and toConfigS = defaultConfig and optsS = "()"
      and toConfigU = defaultConfig and optsU = "()"
      and c = fakeClient and appName = "''app''" and \<sigma> = "?s" and \<sigma>' = "?s" and ?\<sigma>1.0 = "?s"
      and client = fakeUpdate and ?order1.0 = "[]" and ?order2.0 = "[]"
      and names = "[''A'']", OF two]
  note t0 = unknown_app_unless_single [where toConfigL = defaultConfig and optsL = "()"
      and c = fakeClient and appName = "''app''" and \<sigma> = "?z" and \<sigma>' = "?z", OF zero]
  have a: "List fakeClient defaultConfig ''app'' () ?s = (Returns (Inl (UnknownApp ''app'')), ?s)"
    by (rule t2 [THEN conjunct2, THEN conjunct1, THEN mp, OF conjI, OF n l2])
  have b: "Set fakeClient defaultConfig [] [] ''app'' Map.empty () ?s
             = (Returns (Inl (UnknownApp ''app'')), ?s)"
    by (rule t2 [THEN conjunct2, THEN conjunct2, THEN conjunct1, THEN mp,
          OF conjI, OF n conjI, OF fa l2])
  have c: "Unset fakeClient defaultConfig ''app'' [''A''] () ?s
             = (Returns (Inl (UnknownApp ''app'')), ?s)"
    by (rule t2 [THEN conjunct2, THEN conjunct2, THEN conjunct2, THEN mp,
          OF conjI, OF n conjI, OF fa l2])
  have d: "List fakeClient defaultConfig ''app'' () ?z = (Returns (Inl (UnknownApp ''app'')), ?z)"
    by (rule t0 [THEN conjunct2, THEN conjunct1, THEN mp, OF conjI, OF n l0])
  show ?thesis by (intro conjI two l2 a b c zero l0 d)
qed

text \<open>
  Claim C5. With the empty application name each of \<open>List\<close>, \<open>Set\<close> and
  \<open>Unset\<close> fails with the invalid-name error and leaves the log of upstream calls,
  memory and the world as they were: neither the App Lister nor the Serving Factory is
  invoked and no update is issued.
\<close>

theorem empty_name_no_upstream_call:
  "List (recording c) toConfigL [] optsL (h, (log, w))
       = (Returns (Inl InvalidAppName), (h, (log, w)))
   \<and> Set (recording c) toConfigS order1 order2 [] values optsS (h, (log, w))
       = (Returns (Inl InvalidAppName), (h, (log, w)))
   \<and> Unset (recording c) toConfigU [] names optsU (h, (log, w))
       = (Returns (Inl InvalidAppName), (h, (log, w)))"
  by (simp add: List_def Set_def Unset_def)

section \<open>What an error leaves behind\<close>

lemma fetchService_stored:
  assumes lister: "\<And>opts \<sigma> r \<sigma>'. l c opts \<sigma> = (r, \<sigma>') \<Longrightarrow> stored \<sigma>' = stored \<sigma>"
    and "fetchService c namespace appName \<sigma> = (r, \<sigma>')"
  shows "stored \<sigma>' = stored \<sigma>"
proof -
  obtain r0 \<sigma>0 where
    l0: "l c [WithListNamespace namespace, WithListAppName appName] \<sigma> = (r0, \<sigma>0)"
    by (rule prod.exhaust)
  then have "stored \<sigma>0 = stored \<sigma>" by (rule lister)
  moreover have "\<sigma>' = \<sigma>0"
    using assms(2) l0 by (auto simp: fetchService_def split: sum.splits if_splits)
  ultimately show ?thesis by simp
qed

lemma Set_factory_error:
  "appName \<noteq> [] \<Longrightarrow> f c \<sigma> = (Inl err, \<sigma>1) \<Longrightarrow>
   Set c toConfig order1 order2 appName values opts \<sigma> = (Returns (Inl err), \<sigma>1)"
  by (simp add: Set_def)

lemma Unset_factory_error:
  "appName \<noteq> [] \<Longrightarrow> f c \<sigma> = (Inl err, \<sigma>1) \<Longrightarrow>
   Unset c toConfig appName names opts \<sigma> = (Returns (Inl err), \<sigma>1)"
  by (simp add: Unset_def)

lemma Set_fetch_error:
  "appName \<noteq> [] \<Longrightarrow> f c \<sigma> = (Inr client, \<sigma>1) \<Longrightarrow>
   fetchService c (Namespace (toConfig opts)) appName \<sigma>1 = (Inl err, \<sigma>2) \<Longrightarrow>
   Set c toConfig order1 order2 appName values opts \<sigma> = (Returns (Inl err), \<sigma>2)"
  by (simp add: Set_def)

lemma Unset_fetch_error:
  "appName \<noteq> [] \<Longrightarrow> f c \<sigma> = (Inr client, \<sigma>1) \<Longrightarrow>
   fetchService c (Namespace (toConfig opts)) appName \<sigma>1 = (Inl err, \<sigma>2) \<Longrightarrow>
   Unset c toConfig appName names opts \<sigma> = (Returns (Inl err), \<sigma>2)"
  by (simp add: Unset_def)

lemma Set_fetched:
  "appName \<noteq> [] \<Longrightarrow> f c \<sigma> = (Inr client, \<sigma>1) \<Longrightarrow>
   fetchService c (Namespace (toConfig opts)) appName \<sigma>1 = (Inr s, (h, w)) \<Longrightarrow>
   RunLatest s = Some a \<Longrightarrow>
   Set c toConfig order1 order2 appName values opts \<sigma>
     = (case client (Namespace (toConfig opts)) s
               (writeEnv a (mapToEnvs order2 (dedupeEnvs order1 values (Env (h a)))) h, w) of
          (Inl err, \<sigma>3) \<Rightarrow> (Returns (Inl err), \<sigma>3)
        | (Inr r, \<sigma>3) \<Rightarrow> (Returns (Inr ()), \<sigma>3))"
  by (simp add: Set_def Let_def)

lemma Unset_fetched:
  "appName \<noteq> [] \<Longrightarrow> f c \<sigma> = (Inr client, \<sigma>1) \<Longrightarrow>
   fetchService c (Namespace (toConfig opts)) appName \<sigma>1 = (Inr s, (h, w)) \<Longrightarrow>
   RunLatest s = Some a \<Longrightarrow>
   Unset c toConfig appName names opts \<sigma>
     = (case client (Namespace (toConfig opts)) s
               (writeEnv a (removeEnvs names (Env (h a))) h, w) of
          (Inl err, \<sigma>3) \<Rightarrow> (Returns (Inl err), \<sigma>3)
        | (Inr r, \<sigma>3) \<Rightarrow> (Returns (Inr ()), \<sigma>3))"
  by (simp add: Unset_def Let_def)

lemma Set_fetched_nil:
  "appName \<noteq> [] \<Longrightarrow> f c \<sigma> = (Inr client, \<sigma>1) \<Longrightarrow>
   fetchService c (Namespace (toConfig opts)) appName \<sigma>1 = (Inr s, \<sigma>2) \<Longrightarrow>
   RunLatest s = None \<Longrightarrow>
   Set c toConfig order1 order2 appName values opts \<sigma> = (Panics, \<sigma>2)"
  by (cases \<sigma>2) (simp add: Set_def)

lemma Unset_fetched_nil:
  "appName \<noteq> [] \<Longrightarrow> f c \<sigma> = (Inr client, \<sigma>1) \<Longrightarrow>
   fetchService c (Namespace (toConfig opts)) appName \<sigma>1 = (Inr s, \<sigma>2) \<Longrightarrow>
   RunLatest s = None \<Longrightarrow>
   Unset c toConfig appName names opts \<sigma> = (Panics, \<sigma>2)"
  by (cases \<sigma>2) (simp add: Unset_def)

lemma Set_update_error:
  "appName \<noteq> [] \<Longrightarrow> f c \<sigma> = (Inr client, \<sigma>1) \<Longrightarrow>
   fetchService c (Namespace (toConfig opts)) appName \<sigma>1 = (Inr s, (h, w)) \<Longrightarrow>
   RunLatest s = Some a \<Longrightarrow>
   client (Namespace (toConfig opts)) s
     (writeEnv a (mapToEnvs order2 (dedupeEnvs order1 values (Env (h a)))) h, w)
     = (Inl err, \<sigma>3) \<Longrightarrow>
   Set c toConfig order1 order2 appName values opts \<sigma> = (Returns (Inl err), \<sigma>3)"
  by (simp add: Set_fetched)

lemma Unset_update_error:
  "appName \<noteq> [] \<Longrightarrow> f c \<sigma> = (Inr client, \<sigma>1) \<Longrightarrow>
   fetchService c (Namespace (toConfig opts)) appName \<sigma>1 = (Inr s, (h, w)) \<Longrightarrow>
   RunLatest s = Some a \<Longrightarrow>
   client (Namespace (toConfig opts)) s (writeEnv a (removeEnvs names (Env (h a))) h, w)
     = (Inl err, \<sigma>3) \<Longrightarrow>
   Unset c toConfig appName names opts \<sigma> = (Returns (Inl err), \<sigma>3)"
  by (simp add: Unset_fetched)

lemma Set_error_stored:
  assumes lister: "\<And>opts \<sigma> r \<sigma>'. l c opts \<sigma> = (r, \<sigma>') \<Longrightarrow> stored \<sigma>' = stored \<sigma>"
    and factory: "\<And>\<sigma> r \<sigma>'. f c \<sigma> = (r, \<sigma>') \<Longrightarrow> stored \<sigma>' = stored \<sigma>"
    and rejected: "\<And>\<sigma> client \<sigma>1 namespace s \<sigma>2 err \<sigma>3.
           f c \<sigma> = (Inr client, \<sigma>1) \<Longrightarrow> client namespace s \<sigma>2 = (Inl err, \<sigma>3)
           \<Longrightarrow> stored \<sigma>3 = stored \<sigma>2"
    and unshared: "\<And>h w a envs. stored (writeEnv a envs h, w) = stored (h, w)"
    and run: "Set c toConfig order1 order2 appName values opts \<sigma> = (Returns (Inl err), \<sigma>')"
  shows "stored \<sigma>' = stored \<sigma>"
proof (cases "appName = []")
  case True
  then show ?thesis using run by (simp add: Set_def)
next
  case False
  obtain r1 \<sigma>1 where f1: "f c \<sigma> = (r1, \<sigma>1)" by (rule prod.exhaust)
  have s1: "stored \<sigma>1 = stored \<sigma>" using f1 by (rule factory)
  show ?thesis
  proof (cases r1)
    case (Inl e)
    then show ?thesis using run False f1 s1 by (simp add: Set_factory_error)
  next
    case (Inr client)
    obtain r2 h w where
      f2: "fetchService c (Namespace (toConfig opts)) appName \<sigma>1 = (r2, (h, w))"
      by (cases "fetchService c (Namespace (toConfig opts)) appName \<sigma>1") auto
    have s2: "stored (h, w) = stored \<sigma>1" using lister f2 by (rule fetchService_stored)
    show ?thesis
    proof (cases r2)
      case (Inl e)
      then show ?thesis using run False f1 Inr f2 s1 s2 by (simp add: Set_fetch_error)
    next
      case (Inr s)
      show ?thesis
      proof (cases "RunLatest s")
        case None
        then show ?thesis
          using run False f1 \<open>r1 = Inr client\<close> f2 Inr by (simp add: Set_fetched_nil)
      next
        case (Some a)
        let ?h' = "writeEnv a (mapToEnvs order2 (dedupeEnvs order1 values (Env (h a)))) h"
        obtain r3 \<sigma>3 where f3: "client (Namespace (toConfig opts)) s (?h', w) = (r3, \<sigma>3)"
          by (rule prod.exhaust)
        from run False f1 \<open>r1 = Inr client\<close> f2 Inr Some f3
        obtain e where "r3 = Inl e" and "\<sigma>' = \<sigma>3"
          by (cases r3) (simp_all add: Set_fetched)
        then have "stored \<sigma>3 = stored (?h', w)"
          using rejected f1 \<open>r1 = Inr client\<close> f3 by blast
        then show ?thesis using \<open>\<sigma>' = \<sigma>3\<close> s1 s2 unshared by simp
      qed
    qed
  qed
qed

lemma Unset_error_stored:
  assumes lister: "\<And>opts \<sigma> r \<sigma>'. l c opts \<sigma> = (r, \<sigma>') \<Longrightarrow> stored \<sigma>' = stored \<sigma>"
    and factory: "\<And>\<sigma> r \<sigma>'. f c \<sigma> = (r, \<sigma>') \<Longrightarrow> stored \<sigma>' = stored \<sigma>"
    and rejected: "\<And>\<sigma> client \<sigma>1 namespace s \<sigma>2 err \<sigma>3.
           f c \<sigma> = (Inr client, \<sigma>1) \<Longrightarrow> client namespace s \<sigma>2 = (Inl err, \<sigma>3)
           \<Longrightarrow> stored \<sigma>3 = stored \<sigma>2"
    and unshared: "\<And>h w a envs. stored (writeEnv a envs h, w) = stored (h, w)"
    and run: "Unset c toConfig appName names opts \<sigma> = (Returns (Inl err), \<sigma>')"
  shows "stored \<sigma>' = stored \<sigma>"
proof (cases "appName = []")
  case True
  then show ?thesis using run by (simp add: Unset_def)
next
  case False
  obtain r1 \<sigma>1 where f1: "f c \<sigma> = (r1, \<sigma>1)" by (rule prod.exhaust)
  have s1: "stored \<sigma>1 = stored \<sigma>" using f1 by (rule factory)
  show ?thesis
  proof (cases r1)
    case (Inl e)
    then show ?thesis using run False f1 s1 by (simp add: Unset_factory_error)
  next
    case (Inr client)
    obtain r2 h w where
      f2: "fetchService c (Namespace (toConfig opts)) appName \<sigma>1 = (r2, (h, w))"
      by (cases "fetchService c (Namespace (toConfig opts)) appName \<sigma>1") auto
    have s2: "stored (h, w) = stored \<sigma>1" using lister f2 by (rule fetchService_stored)
    show ?thesis
    proof (cases r2)
      case (Inl e)
      then show ?thesis using run False f1 Inr f2 s1 s2 by (simp add: Unset_fetch_error)
    next
      case (Inr s)
      show ?thesis
      proof (cases "RunLatest s")
        case None
        then show ?thesis
          using run False f1 \<open>r1 = Inr client\<close> f2 Inr by (simp add: Unset_fetched_nil)
      next
        case (Some a)
        let ?h' = "writeEnv a (removeEnvs names (Env (h a))) h"
        obtain r3 \<sigma>3 where f3: "client (Namespace (toConfig opts)) s (?h', w) = (r3, \<sigma>3)"
          by (rule prod.exhaust)
        from run False f1 \<open>r1 = Inr client\<close> f2 Inr Some f3
        obtain e where "r3 = Inl e" and "\<sigma>' = \<sigma>3"
          by (cases r3) (simp_all add: Unset_fetched)
        then have "stored \<sigma>3 = stored (?h', w)"
          using rejected f1 \<open>r1 = Inr client\<close> f3 by blast
        then show ?thesis using \<open>\<sigma>' = \<sigma>3\<close> s1 s2 unshared by simp
      qed
    qed
  qed
qed

text \<open>
  Claim C6, as it is stated for every failing call: on the in-process platform, whose
  lister returns resources that share their \<^verbatim>\<open>RunLatest\<close> object with what is stored,
  \<open>Set\<close> with a rejected update returns the update's error and the stored resource
  has changed: the new environment list was written in place before the update was
  called, and nothing puts the old list back.
\<close>

theorem rejected_update_changes_shared_store_counterexample:
  "Set readOnlyClient defaultConfig [''A''] [''B'', ''A''] ''app'' [''A'' \<mapsto> ''1''] ()
       (mem [pair ''A'' ''0'', pair ''B'' ''2''], [app])
     = (Returns (Inl (Upstream ''forbidden'')), (mem [pair ''B'' ''2'', pair ''A'' ''1''], [app]))
   \<and> fakeStored (mem [pair ''A'' ''0'', pair ''B'' ''2''], [app])
     = [((''default'', ''app''), Some [pair ''A'' ''0'', pair ''B'' ''2''])]
   \<and> fakeStored (mem [pair ''B'' ''2'', pair ''A'' ''1''], [app])
     = [((''default'', ''app''), Some [pair ''B'' ''2'', pair ''A'' ''1''])]
   \<and> fakeStored (mem [pair ''B'' ''2'', pair ''A'' ''1''], [app])
     \<noteq> fakeStored (mem [pair ''A'' ''0'', pair ''B'' ''2''], [app])"
proof -
  have run: "Set readOnlyClient defaultConfig [''A''] [''B'', ''A''] ''app''
       [''A'' \<mapsto> ''1''] () (mem [pair ''A'' ''0'', pair ''B'' ''2''], [app])
     = (Returns (Inl (Upstream ''forbidden'')), (mem [pair ''B'' ''2'', pair ''A'' ''1''], [app]))"
    by (simp add: Set_def fetchService_def readOnlyClient_def fakeList_def fakeMatches_def
        defaultConfig_def app_def mem_def writeEnv_def pair_def mapToEnvs_def dedupeEnvs_def
        Let_def)
  have before: "fakeStored (mem [pair ''A'' ''0'', pair ''B'' ''2''], [app])
     = [((''default'', ''app''), Some [pair ''A'' ''0'', pair ''B'' ''2''])]"
    by (simp add: fakeStored_def app_def mem_def)
  have after: "fakeStored (mem [pair ''B'' ''2'', pair ''A'' ''1''], [app])
     = [((''default'', ''app''), Some [pair ''B'' ''2'', pair ''A'' ''1''])]"
    by (simp add: fakeStored_def app_def mem_def)
  have differ: "fakeStored (mem [pair ''B'' ''2'', pair ''A'' ''1''], [app])
     \<noteq> fakeStored (mem [pair ''A'' ''0'', pair ''B'' ''2''], [app])"
    unfolding before after by (simp add: pair_def)
  show ?thesis by (intro conjI run before after differ)
qed

text \<open>
  Claim C6, amended. Take any observation \<open>stored\<close> of what the platform stores, such
  that listing and obtaining a handle leave it as it is, and so does an update that is
  rejected, and such that it does not depend on the environment lists held in the
  memory of the process (the store shares no object with the resources the App Lister
  returns, as with a remote platform). Then whenever \<open>Set\<close> or \<open>Unset\<close> returns an
  error, what is stored after the call is what was stored before it. The error of a
  failing Serving Factory, of a failing fetch and of a rejected update is returned to the
  caller as it is. After a failing factory or fetch the state is the one that call left:
  the client has written nothing. A rejected update has been given memory in which the
  new environment list is already written into the fetched resource.
\<close>

theorem error_leaves_unshared_store_unchanged:
  assumes lister_reads:
      "\<forall>opts \<sigma> r \<sigma>'. l c opts \<sigma> = (r, \<sigma>') \<longrightarrow> stored \<sigma>' = stored \<sigma>"
    and factory_reads: "\<forall>\<sigma> r \<sigma>'. f c \<sigma> = (r, \<sigma>') \<longrightarrow> stored \<sigma>' = stored \<sigma>"
    and rejected_update: "\<forall>\<sigma> client \<sigma>1 namespace s \<sigma>2 err \<sigma>3.
           f c \<sigma> = (Inr client, \<sigma>1) \<and> client namespace s \<sigma>2 = (Inl err, \<sigma>3)
           \<longrightarrow> stored \<sigma>3 = stored \<sigma>2"
    and unshared_store: "\<forall>h w a envs. stored (writeEnv a envs h, w) = stored (h, w)"
  shows "(Set c toConfigS order1 order2 appName values optsS \<sigma> = (Returns (Inl err), \<sigma>')
            \<longrightarrow> stored \<sigma>' = stored \<sigma>)
       \<and> (Unset c toConfigU appName names optsU \<sigma> = (Returns (Inl err), \<sigma>')
            \<longrightarrow> stored \<sigma>' = stored \<sigma>)
       \<and> (appName \<noteq> [] \<and> f c \<sigma> = (Inl err, \<sigma>1)
            \<longrightarrow> Set c toConfigS order1 order2 appName values optsS \<sigma> = (Returns (Inl err), \<sigma>1)
              \<and> Unset c toConfigU appName names optsU \<sigma> = (Returns (Inl err), \<sigma>1))
       \<and> (appName \<noteq> [] \<and> f c \<sigma> = (Inr client, \<sigma>1)
            \<and> fetchService c (Namespace (toConfigS optsS)) appName \<sigma>1 = (Inl err, \<sigma>2)
            \<longrightarrow> Set c toConfigS order1 order2 appName values optsS \<sigma> = (Returns (Inl err), \<sigma>2))
       \<and> (appName \<noteq> [] \<and> f c \<sigma> = (Inr client, \<sigma>1)
            \<and> fetchService c (Namespace (toConfigU optsU)) appName \<sigma>1 = (Inl err, \<sigma>2)
            \<longrightarrow> Unset c toConfigU appName names optsU \<sigma> = (Returns (Inl err), \<sigma>2))
       \<and> (appName \<noteq> [] \<and> f c \<sigma> = (Inr client, \<sigma>1)
            \<and> fetchService c (Namespace (toConfigS optsS)) appName \<sigma>1 = (Inr s, (h, w))
            \<and> RunLatest s = Some a
            \<and> client (Namespace (toConfigS optsS)) s
                 (writeEnv a (mapToEnvs order2 (dedupeEnvs order1 values (Env (h a)))) h, w)
                = (Inl err, \<sigma>3)
            \<longrightarrow> Set c toConfigS order1 order2 appName values optsS \<sigma> = (Returns (Inl err), \<sigma>3))
       \<and> (appName \<noteq> [] \<and> f c \<sigma> = (Inr client, \<sigma>1)
            \<and> fetchService c (Namespace (toConfigU optsU)) appName \<sigma>1 = (Inr s, (h, w))
            \<and> RunLatest s = Some a
            \<and> client (Namespace (toConfigU optsU)) s
                 (writeEnv a (removeEnvs names (Env (h a))) h, w)
                = (Inl err, \<sigma>3)
            \<longrightarrow> Unset c toConfigU appName names optsU \<sigma> = (Returns (Inl err), \<sigma>3))"
proof -
  have lister: "\<And>opts \<sigma> r \<sigma>'. l c opts \<sigma> = (r, \<sigma>') \<Longrightarrow> stored \<sigma>' = stored \<sigma>"
    using lister_reads by blast
  have factory: "\<And>\<sigma> r \<sigma>'. f c \<sigma> = (r, \<sigma>') \<Longrightarrow> stored \<sigma>' = stored \<sigma>"
    using factory_reads by blast
  have rejected: "\<And>\<sigma> client \<sigma>1 namespace s \<sigma>2 err \<sigma>3.
           f c \<sigma> = (Inr client, \<sigma>1) \<Longrightarrow> client namespace s \<sigma>2 = (Inl err, \<sigma>3)
           \<Longrightarrow> stored \<sigma>3 = stored \<sigma>2"
    using rejected_update by blast
  have unshared: "\<And>h w a envs. stored (writeEnv a envs h, w) = stored (h, w)"
    using unshared_store by blast
  show ?thesis
  proof (intro conjI impI)
    assume "Set c toConfigS order1 order2 appName values optsS \<sigma> = (Returns (Inl err), \<sigma>')"
    with lister factory rejected unshared show "stored \<sigma>' = stored \<sigma>"
      by (rule Set_error_stored)
  next
    assume "Unset c toConfigU appName names optsU \<sigma> = (Returns (Inl err), \<sigma>')"
    with lister factory rejected unshared show "stored \<sigma>' = stored \<sigma>"
      by (rule Unset_error_stored)
  next
    assume "appName \<noteq> [] \<and> f c \<sigma> = (Inl err, \<sigma>1)"
    then show "Set c toConfigS order1 order2 appName values optsS \<sigma> = (Returns (Inl err), \<sigma>1)"
      by (simp add: Set_factory_error)
  next
    assume "appName \<noteq> [] \<and> f c \<sigma> = (Inl err, \<sigma>1)"
    then show "Unset c toConfigU appName names optsU \<sigma> = (Returns (Inl err), \<sigma>1)"
      by (simp add: Unset_factory_error)
  next
    assume "appName \<noteq> [] \<and> f c \<sigma> = (Inr client, \<sigma>1)
              \<and> fetchService c (Namespace (toConfigS optsS)) appName \<sigma>1 = (Inl err, \<sigma>2)"
    then show "Set c toConfigS order1 order2 appName values optsS \<sigma> = (Returns (Inl err), \<sigma>2)"
      by (simp add: Set_fetch_error)
  next
    assume "appName \<noteq> [] \<and> f c \<sigma> = (Inr client, \<sigma>1)
              \<and> fetchService c (Namespace (toConfigU optsU)) appName \<sigma>1 = (Inl err, \<sigma>2)"
    then show "Unset c toConfigU appName names optsU \<sigma> = (Returns (Inl err), \<sigma>2)"
      by (simp add: Unset_fetch_error)
  next
    assume "appName \<noteq> [] \<and> f c \<sigma> = (Inr client, \<sigma>1)
              \<and> fetchService c (Namespace (toConfigS optsS)) appName \<sigma>1 = (Inr s, (h, w))
              \<and> RunLatest s = Some a
              \<and> client (Namespace (toConfigS optsS)) s
                   (writeEnv a (mapToEnvs order2 (dedupeEnvs order1 values (Env (h a)))) h, w)
                  = (Inl err, \<sigma>3)"
    then show "Set c toConfigS order1 order2 appName values optsS \<sigma> = (Returns (Inl err), \<sigma>3)"
      by (simp add: Set_update_error)
  next
    assume "appName \<noteq> [] \<and> f c \<sigma> = (Inr client, \<sigma>1)
              \<and> fetchService c (Namespace (toConfigU optsU)) appName \<sigma>1 = (Inr s, (h, w))
              \<and> RunLatest s = Some a
              \<and> client (Namespace (toConfigU optsU)) s
                   (writeEnv a (removeEnvs names (Env (h a))) h, w)
                  = (Inl err, \<sigma>3)"
    then show "Unset c toConfigU appName names optsU \<sigma> = (Returns (Inl err), \<sigma>3)"
      by (simp add: Unset_update_error)
  qed
qed

theorem error_leaves_unshared_store_unchanged_witness:
  "Set remoteReadOnlyClient defaultConfig [''A''] [''B'', ''A''] ''app'' [''A'' \<mapsto> ''1''] ()
       (mem [], ([((''default'', ''app''), [pair ''A'' ''0'', pair ''B'' ''2''])], 0))
     = (Returns (Inl (Upstream ''forbidden'')),
        (mem [pair ''B'' ''2'', pair ''A'' ''1''],
         ([((''default'', ''app''), [pair ''A'' ''0'', pair ''B'' ''2''])], Suc 0)))
   \<and> remoteStored (mem [pair ''B'' ''2'', pair ''A'' ''1''],
         ([((''default'', ''app''), [pair ''A'' ''0'', pair ''B'' ''2''])], Suc 0))
     = remoteStored
         (mem [], ([((''default'', ''app''), [pair ''A'' ''0'', pair ''B'' ''2''])], 0))"
proof -
  have lister: "\<forall>opts \<sigma> r \<sigma>'. l remoteReadOnlyClient opts \<sigma> = (r, \<sigma>')
                   \<longrightarrow> remoteStored \<sigma>' = remoteStored \<sigma>"
    by (auto simp: remoteReadOnlyClient_def remoteList_def remoteStored_def Let_def
        split: prod.splits)
  have factory: "\<forall>\<sigma> r \<sigma>'. f remoteReadOnlyClient \<sigma> = (r, \<sigma>')
                   \<longrightarrow> remoteStored \<sigma>' = remoteStored \<sigma>"
    by (auto simp: remoteReadOnlyClient_def)
  have rejected: "\<forall>\<sigma> client \<sigma>1 namespace s \<sigma>2 err \<sigma>3.
           f remoteReadOnlyClient \<sigma> = (Inr client, \<sigma>1)
           \<and> client namespace s \<sigma>2 = (Inl err, \<sigma>3) \<longrightarrow> remoteStored \<sigma>3 = remoteStored \<sigma>2"
    by (auto simp: remoteReadOnlyClient_def)
  have unshared: "\<forall>h w a envs. remoteStored (writeEnv a envs h, w) = remoteStored (h, w)"
    by (simp add: remoteStored_def split: prod.splits)
  have run: "Set remoteReadOnlyClient defaultConfig [''A''] [''B'', ''A''] ''app''
       [''A'' \<mapsto> ''1''] ()
       (mem [], ([((''default'', ''app''), [pair ''A'' ''0'', pair ''B'' ''2''])], 0))
     = (Returns (Inl (Upstream ''forbidden'')),
        (mem [pair ''B'' ''2'', pair ''A'' ''1''],
         ([((''default'', ''app''), [pair ''A'' ''0'', pair ''B'' ''2''])], Suc 0)))"
    by (simp add: Set_def fetchService_def remoteReadOnlyClient_def remoteList_def
        remoteMatches_def defaultConfig_def mem_def writeEnv_def pair_def mapToEnvs_def
        dedupeEnvs_def Let_def)
  note t = error_leaves_unshared_store_unchanged [where stored = remoteStored
      and c = remoteReadOnlyClient, OF lister factory rejected unshared,
      THEN conjunct1, THEN mp, OF run]
  show ?thesis by (intro conjI run t)
qed

section \<open>Set followed by List\<close>

text \<open>
  Claim C7. For a non-empty application name with exactly one matching resource, let
  \<open>Set\<close> succeed: the factory gives a handle, the resource's \<^verbatim>\<open>RunLatest\<close> is set
  and the update is accepted. Let \<open>List\<close> run next, in the state that \<open>Set\<close> left,
  and let the App Lister return the one resource with the environment list that was
  written. Then \<open>List\<close> returns exactly the merged mapping: the existing pairs
  collapsed into a mapping and overlaid with the caller's values, whatever order the
  written list has.
\<close>

theorem Set_then_List:
  assumes "appName \<noteq> []"
    and "f c \<sigma> = (Inr client, \<sigma>1)"
    and "l c [WithListNamespace (Namespace (toConfigS optsS)), WithListAppName appName] \<sigma>1
           = (Inr [s], (h, w))"
    and "RunLatest s = Some a"
    and "rangeKeys values order1"
    and "rangeKeys (dedupeEnvs order1 values (Env (h a))) order2"
    and "client (Namespace (toConfigS optsS)) s
           (writeEnv a (mapToEnvs order2 (dedupeEnvs order1 values (Env (h a)))) h, w)
           = (Inr r, \<sigma>3)"
    and "l c [WithListNamespace (Namespace (toConfigL optsL)), WithListAppName appName] \<sigma>3
           = (Inr [t], (h', w'))"
    and "RunLatest t = Some b"
    and "Env (h' b) = mapToEnvs order2 (dedupeEnvs order1 values (Env (h a)))"
  shows "Set c toConfigS order1 order2 appName values optsS \<sigma> = (Returns (Inr ()), \<sigma>3)
         \<and> List c toConfigL appName optsL \<sigma>3
             = (Returns (Inr (lastWins (Env (h a)) ++ values)), (h', w'))"
proof -
  have "Set c toConfigS order1 order2 appName values optsS \<sigma> = (Returns (Inr ()), \<sigma>3)"
    using Set_run [where toConfig = toConfigS and opts = optsS, OF assms(1-3)] assms(4,7)
    by simp
  moreover have "lastWins (Env (h' b)) = lastWins (Env (h a)) ++ values"
    using assms(5,6,10) by (simp add: lastWins_mapToEnvs dedupeEnvs_merge)
  moreover have "List c toConfigL appName optsL \<sigma>3
                   = (Returns (Inr (lastWins (Env (h' b)))), (h', w'))"
    using List_run [where toConfig = toConfigL and opts = optsL, OF assms(1,8)] assms(9)
    by simp
  ultimately show ?thesis by simp
qed

theorem Set_then_List_witness:
  "Set fakeClient defaultConfig [''A''] [''B'', ''A''] ''app'' [''A'' \<mapsto> ''1''] ()
       (mem [pair ''A'' ''0'', pair ''B'' ''2''], [app])
     = (Returns (Inr ()), (mem [pair ''B'' ''2'', pair ''A'' ''1''], [app]))
   \<and> List fakeClient defaultConfig ''app'' () (mem [pair ''B'' ''2'', pair ''A'' ''1''], [app])
     = (Returns (Inr (lastWins (Env (mem [pair ''A'' ''0'', pair ''B'' ''2''] 0))
                      ++ [''A'' \<mapsto> ''1''])),
        (mem [pair ''B'' ''2'', pair ''A'' ''1''], [app]))"
proof -
  let ?h = "mem [pair ''A'' ''0'', pair ''B'' ''2'']"
  let ?h' = "mem [pair ''B'' ''2'', pair ''A'' ''1'']"
  have h1: "''app'' \<noteq> []" by simp
  have h2: "f fakeClient (?h, [app]) = (Inr fakeUpdate, (?h, [app]))"
    by (simp add: fakeClient_def)
  have h3: "l fakeClient [WithListNamespace (Namespace (defaultConfig ())),
                          WithListAppName ''app''] (?h, [app]) = (Inr [app], (?h, [app]))"
    by (rule fakeList_app)
  have h4: "RunLatest app = Some 0" by (simp add: app_def)
  have h5: "rangeKeys [''A'' \<mapsto> ''1''] [''A'']"
    by (simp add: rangeKeys_def)
  have h6: "rangeKeys (dedupeEnvs [''A''] [''A'' \<mapsto> ''1''] (Env (?h 0))) [''B'', ''A'']"
    by (auto simp: rangeKeys_def dedupeEnvs_def mem_0 pair_def split: if_splits)
  have m: "mapToEnvs [''B'', ''A''] (dedupeEnvs [''A''] [''A'' \<mapsto> ''1''] (Env (?h 0)))
             = [pair ''B'' ''2'', pair ''A'' ''1'']"
    by (simp add: mapToEnvs_def dedupeEnvs_def mem_0 pair_def)
  have h7: "fakeUpdate (Namespace (defaultConfig ())) app
              (writeEnv 0 (mapToEnvs [''B'', ''A'']
                             (dedupeEnvs [''A''] [''A'' \<mapsto> ''1''] (Env (?h 0)))) ?h, [app])
             = (Inr app, (?h', [app]))"
    unfolding m writeEnv_mem by (rule fakeUpdate_app)
  have h8: "l fakeClient [WithListNamespace (Namespace (defaultConfig ())),
                          WithListAppName ''app''] (?h', [app]) = (Inr [app], (?h', [app]))"
    by (rule fakeList_app)
  have h10: "Env (?h' 0)
               = mapToEnvs [''B'', ''A''] (dedupeEnvs [''A''] [''A'' \<mapsto> ''1''] (Env (?h 0)))"
    unfolding m by (simp add: mem_0)
  show ?thesis
    by (rule Set_then_List [where toConfigS = defaultConfig and optsS = "()"
          and toConfigL = defaultConfig and optsL = "()",
          OF h1 h2 h3 h4 h5 h6 h7 h8 h4 h10])
qed

section \<open>Unset twice\<close>

text \<open>
  Claim C8. For a non-empty application name with exactly one matching resource, let a
  first \<open>Unset\<close> succeed, and let a second \<open>Unset\<close> with the same names run in the
  state the first one left, the App Lister returning the one resource with the
  environment list that was written. Then the second call writes the list that is
  already there and hands the resource it fetched to the update as it is: the
  environment it persists is the one the first call persisted. Removing the same names
  twice from any list gives what removing them once gives.
\<close>

theorem Unset_twice:
  assumes "appName \<noteq> []"
    and "f c \<sigma> = (Inr client, \<sigma>1)"
    and "l c [WithListNamespace (Namespace (toConfig opts)), WithListAppName appName] \<sigma>1
           = (Inr [s], (h, w))"
    and "RunLatest s = Some a"
    and "client (Namespace (toConfig opts)) s (writeEnv a (removeEnvs names (Env (h a))) h, w)
           = (Inr r, \<sigma>3)"
    and "f c \<sigma>3 = (Inr client', \<sigma>4)"
    and "l c [WithListNamespace (Namespace (toConfig opts)), WithListAppName appName] \<sigma>4
           = (Inr [t], (h', w'))"
    and "RunLatest t = Some b"
    and "Env (h' b) = removeEnvs names (Env (h a))"
  shows "Unset c toConfig appName names opts \<sigma> = (Returns (Inr ()), \<sigma>3)
         \<and> Unset c toConfig appName names opts \<sigma>3
             = (case client' (Namespace (toConfig opts)) t
                       (writeEnv b (removeEnvs names (Env (h a))) h', w') of
                  (Inl err, \<sigma>6) \<Rightarrow> (Returns (Inl err), \<sigma>6)
                | (Inr r', \<sigma>6) \<Rightarrow> (Returns (Inr ()), \<sigma>6))
         \<and> writeEnv b (removeEnvs names (Env (h a))) h' = h'
         \<and> removeEnvs names (removeEnvs names envs) = removeEnvs names envs"
proof -
  have first: "Unset c toConfig appName names opts \<sigma> = (Returns (Inr ()), \<sigma>3)"
    using Unset_run [where toConfig = toConfig and opts = opts, OF assms(1-3)] assms(4,5)
    by simp
  have same: "removeEnvs names (Env (h' b)) = removeEnvs names (Env (h a))"
    using assms(9) by (simp add: removeEnvs_idem)
  have second: "Unset c toConfig appName names opts \<sigma>3
             = (case client' (Namespace (toConfig opts)) t
                       (writeEnv b (removeEnvs names (Env (h a))) h', w') of
                  (Inl err, \<sigma>6) \<Rightarrow> (Returns (Inl err), \<sigma>6)
                | (Inr r', \<sigma>6) \<Rightarrow> (Returns (Inr ()), \<sigma>6))"
    using Unset_run [where toConfig = toConfig and opts = opts, OF assms(1) assms(6,7)]
      assms(8) same
    by simp
  have unchanged: "writeEnv b (removeEnvs names (Env (h a))) h' = h'"
    using writeEnv_same [of b h'] assms(9) by simp
  show ?thesis
    by (intro conjI first second unchanged removeEnvs_idem)
qed

theorem Unset_twice_witness:
  "Unset fakeClient defaultConfig ''app'' [''B''] ()
       (mem [pair ''A'' ''1'', pair ''B'' ''2'', pair ''C'' ''3''], [app])
     = (Returns (Inr ()), (mem [pair ''A'' ''1'', pair ''C'' ''3''], [app]))
   \<and> Unset fakeClient defaultConfig ''app'' [''B''] ()
       (mem [pair ''A'' ''1'', pair ''C'' ''3''], [app])
     = (Returns (Inr ()), (mem [pair ''A'' ''1'', pair ''C'' ''3''], [app]))"
proof -
  let ?h = "mem [pair ''A'' ''1'', pair ''B'' ''2'', pair ''C'' ''3'']"
  let ?h' = "mem [pair ''A'' ''1'', pair ''C'' ''3'']"
  have h1: "''app'' \<noteq> []" by simp
  have h2: "f fakeClient (?h, [app]) = (Inr fakeUpdate, (?h, [app]))"
    by (simp add: fakeClient_def)
  have h3: "l fakeClient [WithListNamespace (Namespace (defaultConfig ())),
                          WithListAppName ''app''] (?h, [app]) = (Inr [app], (?h, [app]))"
    by (rule fakeList_app)
  have h4: "RunLatest app = Some 0" by (simp add: app_def)
  have r: "removeEnvs [''B''] (Env (?h 0)) = [pair ''A'' ''1'', pair ''C'' ''3'']"
    by (simp add: removeEnvs_def lookupBool_def mem_0 pair_def)
  have h5: "fakeUpdate (Namespace (defaultConfig ())) app
              (writeEnv 0 (removeEnvs [''B''] (Env (?h 0))) ?h, [app]) = (Inr app, (?h', [app]))"
    unfolding r writeEnv_mem by (rule fakeUpdate_app)
  have h6: "f fakeClient (?h', [app]) = (Inr fakeUpdate, (?h', [app]))"
    by (simp add: fakeClient_def)
  have h7: "l fakeClient [WithListNamespace (Namespace (defaultConfig ())),
                          WithListAppName ''app''] (?h', [app]) = (Inr [app], (?h', [app]))"
    by (rule fakeList_app)
  have h9: "Env (?h' 0) = removeEnvs [''B''] (Env (?h 0))"
    unfolding r by (simp add: mem_0)
  note t = Unset_twice [where toConfig = defaultConfig and opts = "()",
      OF h1 h2 h3 h4 h5 h6 h7 h4 h9]
  have a: "Unset fakeClient defaultConfig ''app'' [''B''] () (?h, [app])
             = (Returns (Inr ()), (?h', [app]))"
    by (rule t [THEN conjunct1])
  have b: "Unset fakeClient defaultConfig ''app'' [''B''] () (?h', [app])
             = (Returns (Inr ()), (?h', [app]))"
    unfolding t [THEN conjunct2, THEN conjunct1] r writeEnv_mem fakeUpdate_app by simp
  show ?thesis by (intro conjI a b)
qed

section \<open>The resource handed to the update\<close>

lemma f_recording:
  "f (recording c) (h, (log, w)) =
     (case f c (h, w) of
        (Inl err, (h', w')) \<Rightarrow> (Inl err, (h', (log @ [FactoryCall], w')))
      | (Inr u, (h', w')) \<Rightarrow> (Inr (recordUpdate u), (h', (log @ [FactoryCall], w'))))"
  by (simp add: recording_def)

lemma l_recording:
  "l (recording c) opts (h, (log, w)) =
     (case l c opts (h, w) of (r, (h', w')) \<Rightarrow> (r, (h', (log @ [ListCall opts], w'))))"
  by (simp add: recording_def)

lemma fetchService_recording:
  "fetchService (recording c) namespace appName (h, (log, w)) =
     (case fetchService c namespace appName (h, w) of
        (r, (h', w')) \<Rightarrow>
          (r, (h', (log @ [ListCall [WithListNamespace namespace, WithListAppName appName]],
                    w'))))"
  by (simp add: fetchService_def l_recording split: prod.splits sum.splits)

lemma Set_recording_success:
  assumes "Set (recording c) toConfig order1 order2 appName values opts (h0, (log, w))
             = (Returns (Inr ()), (h', (log', w')))"
  shows "\<exists>client \<sigma>1 s h2 w2 a p.
           f c (h0, w) = (Inr client, \<sigma>1)
         \<and> l c [WithListNamespace (Namespace (toConfig opts)), WithListAppName appName] \<sigma>1
             = (Inr [s], (h2, w2))
         \<and> RunLatest s = Some a
         \<and> log' = log @ [FactoryCall,
                          ListCall [WithListNamespace (Namespace (toConfig opts)),
                                    WithListAppName appName],
                          UpdateCall (Namespace (toConfig opts)) s (Some p)]
         \<and> p = (h2 a)\<lparr>Env := Env p\<rparr> \<and> rest p = rest (h2 a)"
proof -
  have ne: "appName \<noteq> []"
    using assms by (auto simp: Set_def)
  obtain r1 h1 w1 where f1: "f c (h0, w) = (r1, (h1, w1))"
    by (rule prod_cases3)
  obtain client where r1: "r1 = Inr client"
    using assms ne f1 by (cases r1) (simp_all add: Set_def f_recording)
  obtain r2 h2 w2 where
    f2: "fetchService c (Namespace (toConfig opts)) appName (h1, w1) = (r2, (h2, w2))"
    by (rule prod_cases3)
  obtain s where r2: "r2 = Inr s"
    using assms ne f1 r1 f2
    by (cases r2) (simp_all add: Set_def f_recording fetchService_recording)
  obtain a where a: "RunLatest s = Some a"
    using assms ne f1 r1 f2 r2
    by (cases "RunLatest s") (simp_all add: Set_def f_recording fetchService_recording)
  let ?h = "writeEnv a (mapToEnvs order2 (dedupeEnvs order1 values (Env (h2 a)))) h2"
  obtain r3 h3 w3 where f3: "client (Namespace (toConfig opts)) s (?h, w2) = (r3, (h3, w3))"
    by (rule prod_cases3)
  have "log' = log @ [FactoryCall,
                      ListCall [WithListNamespace (Namespace (toConfig opts)),
                                WithListAppName appName],
                      UpdateCall (Namespace (toConfig opts)) s (Some (?h a))]"
    using assms ne f1 r1 f2 r2 a f3
    by (cases r3)
       (simp_all add: Set_def f_recording fetchService_recording recordUpdate_def Let_def)
  moreover have "l c [WithListNamespace (Namespace (toConfig opts)), WithListAppName appName]
                   (h1, w1) = (Inr [s], (h2, w2))"
    using f2 r2 by (simp add: fetchService_Inr)
  moreover have "?h a = (h2 a)\<lparr>Env := Env (?h a)\<rparr>" and "rest (?h a) = rest (h2 a)"
    by (simp_all add: writeEnv_def)
  ultimately show ?thesis
    using f1 r1 a by blast
qed

lemma Unset_recording_success:
  assumes "Unset (recording c) toConfig appName names opts (h0, (log, w))
             = (Returns (Inr ()), (h', (log', w')))"
  shows "\<exists>client \<sigma>1 s h2 w2 a p.
           f c (h0, w) = (Inr client, \<sigma>1)
         \<and> l c [WithListNamespace (Namespace (toConfig opts)), WithListAppName appName] \<sigma>1
             = (Inr [s], (h2, w2))
         \<and> RunLatest s = Some a
         \<and> log' = log @ [FactoryCall,
                          ListCall [WithListNamespace (Namespace (toConfig opts)),
                                    WithListAppName appName],
                          UpdateCall (Namespace (toConfig opts)) s (Some p)]
         \<and> p = (h2 a)\<lparr>Env := Env p\<rparr> \<and> rest p = rest (h2 a)"
proof -
  have ne: "appName \<noteq> []"
    using assms by (auto simp: Unset_def)
  obtain r1 h1 w1 where f1: "f c (h0, w) = (r1, (h1, w1))"
    by (rule prod_cases3)
  obtain client where r1: "r1 = Inr client"
    using assms ne f1 by (cases r1) (simp_all add: Unset_def f_recording)
  obtain r2 h2 w2 where
    f2: "fetchService c (Namespace (toConfig opts)) appName (h1, w1) = (r2, (h2, w2))"
    by (rule prod_cases3)
  obtain s where r2: "r2 = Inr s"
    using assms ne f1 r1 f2
    by (cases r2) (simp_all add: Unset_def f_recording fetchService_recording)
  obtain a where a: "RunLatest s = Some a"
    using assms ne f1 r1 f2 r2
    by (cases "RunLatest s") (simp_all add: Unset_def f_recording fetchService_recording)
  let ?h = "writeEnv a (removeEnvs names (Env (h2 a))) h2"
  obtain r3 h3 w3 where f3: "client (Namespace (toConfig opts)) s (?h, w2) = (r3, (h3, w3))"
    by (rule prod_cases3)
  have "log' = log @ [FactoryCall,
                      ListCall [WithListNamespace (Namespace (toConfig opts)),
                                WithListAppName appName],
                      UpdateCall (Namespace (toConfig opts)) s (Some (?h a))]"
    using assms ne f1 r1 f2 r2 a f3
    by (cases r3)
       (simp_all add: Unset_def f_recording fetchService_recording recordUpdate_def Let_def)
  moreover have "l c [WithListNamespace (Namespace (toConfig opts)), WithListAppName appName]
                   (h1, w1) = (Inr [s], (h2, w2))"
    using f2 r2 by (simp add: fetchService_Inr)
  moreover have "?h a = (h2 a)\<lparr>Env := Env (?h a)\<rparr>" and "rest (?h a) = rest (h2 a)"
    by (simp_all add: writeEnv_def)
  ultimately show ?thesis
    using f1 r1 a by blast
qed

text \<open>
  Claim C9. Whenever \<open>Set\<close> or \<open>Unset\<close> succeeds, the upstream calls it made are one
  call of the Serving Factory, one call of the App Lister and one update, in this order,
  and the resource handed to the update is the resource the App Lister returned, with
  only the environment list replaced in the object behind its \<^verbatim>\<open>RunLatest\<close>: every
  other part of that object and of the resource is that of the fetched resource. The
  update carries the whole resource.
\<close>

theorem update_replaces_only_Env:
  "(Set (recording c) toConfigS order1 order2 appName values optsS (h0, (log, w))
      = (Returns (Inr ()), (h', (log', w')))
    \<longrightarrow> (\<exists>client \<sigma>1 s h2 w2 a p.
           f c (h0, w) = (Inr client, \<sigma>1)
         \<and> l c [WithListNamespace (Namespace (toConfigS optsS)), WithListAppName appName] \<sigma>1
             = (Inr [s], (h2, w2))
         \<and> RunLatest s = Some a
         \<and> log' = log @ [FactoryCall,
                          ListCall [WithListNamespace (Namespace (toConfigS optsS)),
                                    WithListAppName appName],
                          UpdateCall (Namespace (toConfigS optsS)) s (Some p)]
         \<and> p = (h2 a)\<lparr>Env := Env p\<rparr> \<and> rest p = rest (h2 a)))
   \<and> (Unset (recording c) toConfigU appName names optsU (h0, (log, w))
      = (Returns (Inr ()), (h', (log', w')))
    \<longrightarrow> (\<exists>client \<sigma>1 s h2 w2 a p.
           f c (h0, w) = (Inr client, \<sigma>1)
         \<and> l c [WithListNamespace (Namespace (toConfigU optsU)), WithListAppName appName] \<sigma>1
             = (Inr [s], (h2, w2))
         \<and> RunLatest s = Some a
         \<and> log' = log @ [FactoryCall,
                          ListCall [WithListNamespace (Namespace (toConfigU optsU)),
                                    WithListAppName appName],
                          UpdateCall (Namespace (toConfigU optsU)) s (Some p)]
         \<and> p = (h2 a)\<lparr>Env := Env p\<rparr> \<and> rest p = rest (h2 a)))"
proof (intro conjI impI)
  assume "Set (recording c) toConfigS order1 order2 appName values optsS (h0, (log, w))
            = (Returns (Inr ()), (h', (log', w')))"
  then show "\<exists>client \<sigma>1 s h2 w2 a p.
           f c (h0, w) = (Inr client, \<sigma>1)
         \<and> l c [WithListNamespace (Namespace (toConfigS optsS)), WithListAppName appName] \<sigma>1
             = (Inr [s], (h2, w2))
         \<and> RunLatest s = Some a
         \<and> log' = log @ [FactoryCall,
                          ListCall [WithListNamespace (Namespace (toConfigS optsS)),
                                    WithListAppName appName],
                          UpdateCall (Namespace (toConfigS optsS)) s (Some p)]
         \<and> p = (h2 a)\<lparr>Env := Env p\<rparr> \<and> rest p = rest (h2 a)"
    by (rule Set_recording_success)
next
  assume "Unset (recording c) toConfigU appName names optsU (h0, (log, w))
            = (Returns (Inr ()), (h', (log', w')))"
  then show "\<exists>client \<sigma>1 s h2 w2 a p.
           f c (h0, w) = (Inr client, \<sigma>1)
         \<and> l c [WithListNamespace (Namespace (toConfigU optsU)), WithListAppName appName] \<sigma>1
             = (Inr [s], (h2, w2))
         \<and> RunLatest s = Some a
         \<and> log' = log @ [FactoryCall,
                          ListCall [WithListNamespace (Namespace (toConfigU optsU)),
                                    WithListAppName appName],
                          UpdateCall (Namespace (toConfigU optsU)) s (Some p)]
         \<and> p = (h2 a)\<lparr>Env := Env p\<rparr> \<and> rest p = rest (h2 a)"
    by (rule Unset_recording_success)
qed

theorem update_replaces_only_Env_witness:
  "Set (recording fakeClient) defaultConfig [''A''] [''B'', ''A''] ''app'' [''A'' \<mapsto> ''1''] ()
       (mem [pair ''A'' ''0'', pair ''B'' ''2''], ([], [app]))
     = (Returns (Inr ()),
        (mem [pair ''B'' ''2'', pair ''A'' ''1''],
         ([FactoryCall,
           ListCall [WithListNamespace ''default'', WithListAppName ''app''],
           UpdateCall ''default'' app (Some \<lparr>Env = [pair ''B'' ''2'', pair ''A'' ''1''], rest = ()\<rparr>)],
          [app])))
   \<and> (\<exists>client \<sigma>1 s h2 w2 a p.
         f fakeClient (mem [pair ''A'' ''0'', pair ''B'' ''2''], [app]) = (Inr client, \<sigma>1)
       \<and> l fakeClient [WithListNamespace (Namespace (defaultConfig ())),
                        WithListAppName ''app''] \<sigma>1 = (Inr [s], (h2, w2))
       \<and> RunLatest s = Some a
       \<and> [FactoryCall,
          ListCall [WithListNamespace ''default'', WithListAppName ''app''],
          UpdateCall ''default'' app (Some \<lparr>Env = [pair ''B'' ''2'', pair ''A'' ''1''], rest = ()\<rparr>)]
         = [] @ [FactoryCall,
                 ListCall [WithListNamespace (Namespace (defaultConfig ())),
                           WithListAppName ''app''],
                 UpdateCall (Namespace (defaultConfig ())) s (Some p)]
       \<and> p = (h2 a)\<lparr>Env := Env p\<rparr> \<and> rest p = rest (h2 a))
   \<and> Unset (recording fakeClient) defaultConfig ''app'' [''B''] ()
       (mem [pair ''A'' ''1'', pair ''B'' ''2'', pair ''C'' ''3''], ([], [app]))
     = (Returns (Inr ()),
        (mem [pair ''A'' ''1'', pair ''C'' ''3''],
         ([FactoryCall,
           ListCall [WithListNamespace ''default'', WithListAppName ''app''],
           UpdateCall ''default'' app (Some \<lparr>Env = [pair ''A'' ''1'', pair ''C'' ''3''], rest = ()\<rparr>)],
          [app])))
   \<and> (\<exists>client \<sigma>1 s h2 w2 a p.
         f fakeClient (mem [pair ''A'' ''1'', pair ''B'' ''2'', pair ''C'' ''3''], [app])
           = (Inr client, \<sigma>1)
       \<and> l fakeClient [WithListNamespace (Namespace (defaultConfig ())),
                        WithListAppName ''app''] \<sigma>1 = (Inr [s], (h2, w2))
       \<and> RunLatest s = Some a
       \<and> [FactoryCall,
          ListCall [WithListNamespace ''default'', WithListAppName ''app''],
          UpdateCall ''default'' app (Some \<lparr>Env = [pair ''A'' ''1'', pair ''C'' ''3''], rest = ()\<rparr>)]
         = [] @ [FactoryCall,
                 ListCall [WithListNamespace (Namespace (defaultConfig ())),
                           WithListAppName ''app''],
                 UpdateCall (Namespace (defaultConfig ())) s (Some p)]
       \<and> p = (h2 a)\<lparr>Env := Env p\<rparr> \<and> rest p = rest (h2 a))"
proof -
  have run: "Set (recording fakeClient) defaultConfig [''A''] [''B'', ''A''] ''app''
       [''A'' \<mapsto> ''1''] () (mem [pair ''A'' ''0'', pair ''B'' ''2''], ([], [app]))
     = (Returns (Inr ()),
        (mem [pair ''B'' ''2'', pair ''A'' ''1''],
         ([FactoryCall,
           ListCall [WithListNamespace ''default'', WithListAppName ''app''],
           UpdateCall ''default'' app
             (Some \<lparr>Env = [pair ''B'' ''2'', pair ''A'' ''1''], rest = ()\<rparr>)],
          [app])))"
    by (simp add: Set_def recording_def fakeClient_def recordUpdate_def fetchService_def
        fakeList_def fakeMatches_def fakeUpdate_def defaultConfig_def pair_def mapToEnvs_def
        dedupeEnvs_def Let_def app_def mem_def writeEnv_def)
  have run': "Unset (recording fakeClient) defaultConfig ''app'' [''B''] ()
       (mem [pair ''A'' ''1'', pair ''B'' ''2'', pair ''C'' ''3''], ([], [app]))
     = (Returns (Inr ()),
        (mem [pair ''A'' ''1'', pair ''C'' ''3''],
         ([FactoryCall,
           ListCall [WithListNamespace ''default'', WithListAppName ''app''],
           UpdateCall ''default'' app
             (Some \<lparr>Env = [pair ''A'' ''1'', pair ''C'' ''3''], rest = ()\<rparr>)],
          [app])))"
    by (simp add: Unset_def recording_def fakeClient_def recordUpdate_def fetchService_def
        fakeList_def fakeMatches_def fakeUpdate_def defaultConfig_def pair_def removeEnvs_def
        lookupBool_def Let_def app_def mem_def writeEnv_def)
  note t = update_replaces_only_Env [where c = fakeClient and toConfigS = defaultConfig
      and optsS = "()", THEN conjunct1, THEN mp, OF run]
  note t' = update_replaces_only_Env [where c = fakeClient and toConfigU = defaultConfig
      and optsU = "()", THEN conjunct2, THEN mp, OF run']
  show ?thesis by (intro conjI run t run' t')
qed

end
